theory Spec2Isabelle
  imports Main "HOL-Library.AList" "HOL-Library.Char_ord" "HOL-Library.List_Lexorder"
begin

section \<open>Values and errors\<close>

text \<open>
  The entities of \<^verbatim>\<open>federation/entities/base.py\<close> are ordinary Python objects: an
  attribute may hold any value, and a keyword argument may carry any value. The values the
  source itself writes (strings, booleans, integers, a date-time, lists, a dictionary keyed
  by strings, \<^verbatim>\<open>None\<close>) form the value universe of the model. A string is a list of
  code points below 256.
\<close>

datatype datetime = DateTime (year: nat) (month: nat) (day: nat) (hour: nat) (minute: nat) (second: nat)

datatype pyval =
    VNone
  | VBool bool
  | VInt int
  | VStr string
  | VDateTime datetime
  | VList "pyval list"
  | VDict "(string \<times> pyval) list"

text \<open>
  Exceptions are values. The two \<^verbatim>\<open>ValueError\<close>s of validation are kept apart by
  the statement that raises them: \<open>InvalidField f\<close> is the \<^verbatim>\<open>ValueError\<close> raised by
  \<^verbatim>\<open>validate_f\<close>, \<open>MissingRequired r\<close> the one raised at the end of
  \<^verbatim>\<open>BaseEntity.validate\<close>, whose message prints \<^verbatim>\<open>set(self._required)\<close>.
  \<open>Unmodelled\<close> marks Python behaviour outside the value universe (the object protocol's
  double-underscore attributes, formatting or comparing values of other types).
\<close>

datatype error =
    InvalidField string
  | MissingRequired "pyval list"
  | ValueError
  | AttributeError string
  | TypeError
  | KeyError string
  | Unmodelled

text \<open>Python truthiness (\<^verbatim>\<open>if x\<close>, \<^verbatim>\<open>x and y\<close>, \<^verbatim>\<open>not x\<close>).\<close>

fun truthy :: "pyval \<Rightarrow> bool" where
  "truthy VNone = False"
| "truthy (VBool b) = b"
| "truthy (VInt i) = (i \<noteq> 0)"
| "truthy (VStr s) = (s \<noteq> [])"
| "truthy (VDateTime d) = True"
| "truthy (VList xs) = (xs \<noteq> [])"
| "truthy (VDict kvs) = (kvs \<noteq> [])"

text \<open>\<^verbatim>\<open>len(x)\<close>: defined on strings, lists and dictionaries, a \<^verbatim>\<open>TypeError\<close> otherwise.\<close>

fun py_len :: "pyval \<Rightarrow> error + nat" where
  "py_len (VStr s) = Inr (length s)"
| "py_len (VList xs) = Inr (length xs)"
| "py_len (VDict kvs) = Inr (length kvs)"
| "py_len v = Inl TypeError"

fun is_str :: "pyval \<Rightarrow> bool" where
  "is_str (VStr s) = True"
| "is_str v = False"

text \<open>
  \<^verbatim>\<open>x in xs\<close> for a list of strings \<open>xs\<close>: some element equals \<open>x\<close>, and a string
  equals only the same string. Other containers are outside the model.
\<close>

fun py_in :: "pyval \<Rightarrow> pyval \<Rightarrow> error + bool" where
  "py_in x (VList xs) = (if list_all is_str xs then Inr (x \<in> set xs) else Inl Unmodelled)"
| "py_in x c = Inl Unmodelled"

fun hashable :: "pyval \<Rightarrow> bool" where
  "hashable (VList xs) = False"
| "hashable (VDict kvs) = False"
| "hashable v = True"

text \<open>Iteration (\<^verbatim>\<open>for x in v\<close>), and \<^verbatim>\<open>set(v)\<close>: the elements of an iterable, a
  \<^verbatim>\<open>TypeError\<close> when \<open>v\<close> is not iterable or an element is not hashable. The result
  of \<open>py_set\<close> lists the elements; it is read as a set.\<close>

fun py_iter :: "pyval \<Rightarrow> error + pyval list" where
  "py_iter (VList xs) = Inr xs"
| "py_iter (VStr s) = Inr (map (\<lambda>c. VStr [c]) s)"
| "py_iter (VDict kvs) = Inr (map (\<lambda>kv. VStr (fst kv)) kvs)"
| "py_iter v = Inl TypeError"

definition py_set :: "pyval \<Rightarrow> error + pyval list" where
  "py_set v =
     (case py_iter v of
        Inl err \<Rightarrow> Inl err
      | Inr xs \<Rightarrow> if list_all hashable xs then Inr xs else Inl TypeError)"

text \<open>\<^verbatim>\<open>d[key]\<close> for a string key: a dictionary looks the key up, no other value of
  the model takes a string index.\<close>

fun py_getitem :: "pyval \<Rightarrow> string \<Rightarrow> error + pyval" where
  "py_getitem (VDict kvs) key =
     (case map_of kvs key of Some v \<Rightarrow> Inr v | None \<Rightarrow> Inl (KeyError key))"
| "py_getitem v key = Inl TypeError"

section \<open>Strings\<close>

text \<open>\<^verbatim>\<open>str.isspace\<close> on the code points below 256.\<close>

definition is_space :: "char \<Rightarrow> bool" where
  "is_space c = (of_char c \<in> set [9, 10, 11, 12, 13, 28, 29, 30, 31, 32, 133, 160 :: nat])"

text \<open>\<^verbatim>\<open>s.split()\<close>: the maximal runs of non-whitespace characters, in order.
  The second argument is the word read so far.\<close>

fun split_from :: "string \<Rightarrow> string \<Rightarrow> string list" where
  "split_from [] w = (if w = [] then [] else [w])"
| "split_from (c # cs) w =
     (if is_space c then (if w = [] then split_from cs [] else w # split_from cs [])
      else split_from cs (w @ [c]))"

definition split_ws :: "string \<Rightarrow> string list" where
  "split_ws s = split_from s []"

text \<open>\<^verbatim>\<open>w.startswith(p)\<close> and \<^verbatim>\<open>w.strip(chars)\<close>.\<close>

definition startswith :: "string \<Rightarrow> string \<Rightarrow> bool" where
  "startswith w p = (take (length p) w = p)"

definition strip :: "string \<Rightarrow> string \<Rightarrow> string" where
  "strip w chars =
     rev (dropWhile (\<lambda>c. c \<in> set chars) (rev (dropWhile (\<lambda>c. c \<in> set chars) w)))"

section \<open>Classes\<close>

text \<open>
  The classes of \<^verbatim>\<open>base.py\<close> and \<^verbatim>\<open>diaspora/entities.py\<close>. An entity is composed
  by multiple inheritance, as in
  \<^verbatim>\<open>class Post(RawContentMixin, GUIDMixin, HandleMixin, PublicMixin, CreatedAtMixin, BaseEntity)\<close>
  and \<^verbatim>\<open>class DiasporaPost(DiasporaEntityMixin, Post)\<close>. \<open>bases\<close> holds the class
  statements, \<open>mro\<close> the method resolution order Python computes from them (without
  \<^verbatim>\<open>object\<close>); lemma \<open>mro_c3\<close> checks the one against the other.
\<close>

datatype cls =
    BaseEntity | GUIDMixin | HandleMixin | PublicMixin | CreatedAtMixin | RawContentMixin
  | Post | Image | ParticipationMixin | Comment | Reaction | Relationship | Profile
  | DiasporaEntityMixin | DiasporaComment | DiasporaPost | DiasporaLike | DiasporaRequest
  | DiasporaProfile

text \<open>The base classes each class statement names (\<^verbatim>\<open>object\<close> left out).\<close>

fun bases :: "cls \<Rightarrow> cls list" where
  "bases BaseEntity = []"
| "bases GUIDMixin = [BaseEntity]"
| "bases HandleMixin = [BaseEntity]"
| "bases PublicMixin = [BaseEntity]"
| "bases CreatedAtMixin = [BaseEntity]"
| "bases RawContentMixin = [BaseEntity]"
| "bases ParticipationMixin = [BaseEntity]"
| "bases Post =
     [RawContentMixin, GUIDMixin, HandleMixin, PublicMixin, CreatedAtMixin, BaseEntity]"
| "bases Image = [GUIDMixin, HandleMixin, PublicMixin, CreatedAtMixin, BaseEntity]"
| "bases Comment =
     [RawContentMixin, GUIDMixin, ParticipationMixin, CreatedAtMixin, HandleMixin]"
| "bases Reaction = [GUIDMixin, ParticipationMixin, CreatedAtMixin, HandleMixin]"
| "bases Relationship = [CreatedAtMixin, HandleMixin]"
| "bases Profile = [CreatedAtMixin, HandleMixin, RawContentMixin, PublicMixin, GUIDMixin]"
| "bases DiasporaEntityMixin = []"
| "bases DiasporaComment = [DiasporaEntityMixin, Comment]"
| "bases DiasporaPost = [DiasporaEntityMixin, Post]"
| "bases DiasporaLike = [DiasporaEntityMixin, Reaction]"
| "bases DiasporaRequest = [DiasporaEntityMixin, Relationship]"
| "bases DiasporaProfile = [DiasporaEntityMixin, Profile]"

fun mro :: "cls \<Rightarrow> cls list" where
  "mro BaseEntity = [BaseEntity]"
| "mro GUIDMixin = [GUIDMixin, BaseEntity]"
| "mro HandleMixin = [HandleMixin, BaseEntity]"
| "mro PublicMixin = [PublicMixin, BaseEntity]"
| "mro CreatedAtMixin = [CreatedAtMixin, BaseEntity]"
| "mro RawContentMixin = [RawContentMixin, BaseEntity]"
| "mro ParticipationMixin = [ParticipationMixin, BaseEntity]"
| "mro Post =
     [Post, RawContentMixin, GUIDMixin, HandleMixin, PublicMixin, CreatedAtMixin, BaseEntity]"
| "mro Image = [Image, GUIDMixin, HandleMixin, PublicMixin, CreatedAtMixin, BaseEntity]"
| "mro Comment =
     [Comment, RawContentMixin, GUIDMixin, ParticipationMixin, CreatedAtMixin, HandleMixin,
      BaseEntity]"
| "mro Reaction =
     [Reaction, GUIDMixin, ParticipationMixin, CreatedAtMixin, HandleMixin, BaseEntity]"
| "mro Relationship = [Relationship, CreatedAtMixin, HandleMixin, BaseEntity]"
| "mro Profile =
     [Profile, CreatedAtMixin, HandleMixin, RawContentMixin, PublicMixin, GUIDMixin, BaseEntity]"
| "mro DiasporaEntityMixin = [DiasporaEntityMixin]"
| "mro DiasporaComment =
     [DiasporaComment, DiasporaEntityMixin, Comment, RawContentMixin, GUIDMixin,
      ParticipationMixin, CreatedAtMixin, HandleMixin, BaseEntity]"
| "mro DiasporaPost =
     [DiasporaPost, DiasporaEntityMixin, Post, RawContentMixin, GUIDMixin, HandleMixin,
      PublicMixin, CreatedAtMixin, BaseEntity]"
| "mro DiasporaLike =
     [DiasporaLike, DiasporaEntityMixin, Reaction, GUIDMixin, ParticipationMixin,
      CreatedAtMixin, HandleMixin, BaseEntity]"
| "mro DiasporaRequest =
     [DiasporaRequest, DiasporaEntityMixin, Relationship, CreatedAtMixin, HandleMixin,
      BaseEntity]"
| "mro DiasporaProfile =
     [DiasporaProfile, DiasporaEntityMixin, Profile, CreatedAtMixin, HandleMixin,
      RawContentMixin, PublicMixin, GUIDMixin, BaseEntity]"

text \<open>
  The merge of the C3 linearisation, by which Python computes the resolution order: take the
  first head that is in the tail of no sequence, remove it from the heads, repeat. The first
  argument bounds the number of rounds.
\<close>

fun c3_merge :: "nat \<Rightarrow> cls list list \<Rightarrow> cls list option" where
  "c3_merge 0 seqs = None"
| "c3_merge (Suc n) seqs =
     (let live = filter (\<lambda>s. s \<noteq> []) seqs in
      if live = [] then Some []
      else (case find (\<lambda>h. list_all (\<lambda>s. h \<notin> set (tl s)) live) (map hd live) of
              None \<Rightarrow> None
            | Some h \<Rightarrow>
                map_option ((#) h)
                  (c3_merge n (map (\<lambda>s. if hd s = h then tl s else s) live))))"

text \<open>
  The data attributes a class body binds, in the order of the source. The default of
  \<^verbatim>\<open>created_at\<close> is \<^verbatim>\<open>datetime.datetime.now()\<close> in the body of
  \<^verbatim>\<open>CreatedAtMixin\<close>: the expression is evaluated when the class statement runs, that is
  once, when the module is imported. \<open>t0\<close> is the clock reading it returned then.
\<close>

fun own_data :: "datetime \<Rightarrow> cls \<Rightarrow> (string \<times> pyval) list" where
  "own_data t0 BaseEntity = [(''_required'', VList [])]"
| "own_data t0 GUIDMixin = [(''guid'', VStr '''')]"
| "own_data t0 HandleMixin = [(''handle'', VStr '''')]"
| "own_data t0 PublicMixin = [(''public'', VBool False)]"
| "own_data t0 CreatedAtMixin = [(''created_at'', VDateTime t0)]"
| "own_data t0 RawContentMixin = [(''raw_content'', VStr '''')]"
| "own_data t0 Post =
     [(''provider_display_name'', VStr ''''), (''location'', VStr ''''), (''photos'', VList [])]"
| "own_data t0 Image =
     [(''remote_path'', VStr ''''), (''remote_name'', VStr ''''), (''text'', VStr ''''),
      (''linked_type'', VStr ''''), (''linked_guid'', VStr ''''), (''height'', VInt 0),
      (''width'', VInt 0)]"
| "own_data t0 ParticipationMixin =
     [(''target_guid'', VStr ''''), (''participation'', VStr ''''),
      (''_participation_valid_values'',
         VList [VStr ''reaction'', VStr ''subscription'', VStr ''comment''])]"
| "own_data t0 Comment = [(''participation'', VStr ''comment'')]"
| "own_data t0 Reaction =
     [(''participation'', VStr ''reaction''), (''reaction'', VStr ''''),
      (''_reaction_valid_values'', VList [VStr ''like''])]"
| "own_data t0 Relationship =
     [(''target_handle'', VStr ''''), (''relationship'', VStr ''''),
      (''_relationship_valid_values'',
         VList [VStr ''sharing'', VStr ''following'', VStr ''ignoring'', VStr ''blocking''])]"
| "own_data t0 Profile =
     [(''name'', VStr ''''), (''email'', VStr ''''),
      (''image_urls'',
         VDict [(''small'', VStr ''''), (''medium'', VStr ''''), (''large'', VStr '''')]),
      (''gender'', VStr ''''), (''location'', VStr ''''), (''nsfw'', VBool False),
      (''tag_list'', VList []), (''public_key'', VStr '''')]"
| "own_data t0 DiasporaEntityMixin = []"
| "own_data t0 DiasporaComment = [(''author_signature'', VStr '''')]"
| "own_data t0 DiasporaPost = []"
| "own_data t0 DiasporaLike = [(''author_signature'', VStr ''''), (''reaction'', VStr ''like'')]"
| "own_data t0 DiasporaRequest = [(''relationship'', VStr ''sharing'')]"
| "own_data t0 DiasporaProfile = []"

text \<open>The methods a class body defines (\<^verbatim>\<open>__init__\<close> apart) and its properties.\<close>

fun own_methods :: "cls \<Rightarrow> string list" where
  "own_methods BaseEntity = [''validate'']"
| "own_methods GUIDMixin = [''validate_guid'']"
| "own_methods HandleMixin = [''validate_handle'']"
| "own_methods ParticipationMixin = [''validate_participation'']"
| "own_methods Reaction = [''validate_reaction'']"
| "own_methods Relationship = [''validate_target_handle'', ''validate_relationship'']"
| "own_methods Profile = [''validate_email'']"
| "own_methods DiasporaEntityMixin = [''from_base'']"
| "own_methods DiasporaComment = [''to_xml'']"
| "own_methods DiasporaPost = [''to_xml'']"
| "own_methods DiasporaLike = [''to_xml'']"
| "own_methods DiasporaRequest = [''to_xml'']"
| "own_methods DiasporaProfile = [''to_xml'']"
| "own_methods c = []"

fun own_props :: "cls \<Rightarrow> string list" where
  "own_props RawContentMixin = [''tags'']"
| "own_props c = []"

text \<open>What a class offers through its resolution order; the first binding of a name wins.\<close>

definition class_data :: "datetime \<Rightarrow> cls \<Rightarrow> (string \<times> pyval) list" where
  "class_data t0 c = concat (map (own_data t0) (mro c))"

definition class_methods :: "cls \<Rightarrow> string list" where
  "class_methods c = concat (map own_methods (mro c))"

definition class_props :: "cls \<Rightarrow> string list" where
  "class_props c = concat (map own_props (mro c))"

section \<open>Instances and attribute access\<close>

text \<open>An instance is its class and its \<^verbatim>\<open>__dict__\<close>, in insertion order.\<close>

record entity =
  cls_of :: cls
  inst :: "(string \<times> pyval) list"

text \<open>
  \<^verbatim>\<open>self.name\<close> for a data attribute: the instance's own binding, else the class's.
  A property of the class comes before both; it is read through \<open>tags\<close> below, and a
  method is not a value of the model.
\<close>

definition get_field :: "datetime \<Rightarrow> entity \<Rightarrow> string \<Rightarrow> error + pyval" where
  "get_field t0 e name =
     (if name \<in> set (class_props (cls_of e)) then Inl Unmodelled
      else case map_of (inst e) name of
        Some v \<Rightarrow> Inr v
      | None \<Rightarrow>
          (case map_of (class_data t0 (cls_of e)) name of
            Some v \<Rightarrow> Inr v
          | None \<Rightarrow>
              if name \<in> set (class_methods (cls_of e)) then Inl Unmodelled
              else Inl (AttributeError name)))"

text \<open>
  \<^verbatim>\<open>RawContentMixin.tags\<close>:
  \<^verbatim>\<open>if not self.raw_content: return set()\<close>
  \<^verbatim>\<open>return set({word.strip("#") for word in self.raw_content.split() if word.startswith("#")})\<close>
  A true value that is not a string has no \<^verbatim>\<open>split\<close>.
\<close>

definition tags :: "datetime \<Rightarrow> entity \<Rightarrow> error + string set" where
  "tags t0 e =
     (case get_field t0 e ''raw_content'' of
        Inl err \<Rightarrow> Inl err
      | Inr v \<Rightarrow>
          if \<not> truthy v then Inr {}
          else (case v of
                  VStr s \<Rightarrow>
                    Inr (set (map (\<lambda>word. strip word ''#'')
                                (filter (\<lambda>word. startswith word ''#'') (split_ws s))))
                | _ \<Rightarrow> Inl (AttributeError ''split'')))"

text \<open>
  Whether \<^verbatim>\<open>getattr(self, name)\<close> returns or raises. A property runs its getter. Names
  that begin with two underscores belong to the object protocol of the interpreter
  (\<^verbatim>\<open>__class__\<close>, \<^verbatim>\<open>__dict__\<close>, ...) and are outside the model.
\<close>

definition attr_access :: "datetime \<Rightarrow> entity \<Rightarrow> string \<Rightarrow> error + unit" where
  "attr_access t0 e name =
     (if startswith name ''__'' then Inl Unmodelled
      else if name \<in> set (class_props (cls_of e)) then
        (case tags t0 e of Inl err \<Rightarrow> Inl err | Inr ts \<Rightarrow> Inr ())
      else if name \<in> fst ` set (inst e) \<or> name \<in> fst ` set (class_data t0 (cls_of e))
              \<or> name \<in> set (class_methods (cls_of e)) then Inr ()
      else Inl (AttributeError name))"

text \<open>\<^verbatim>\<open>hasattr\<close> turns an \<^verbatim>\<open>AttributeError\<close> into \<^verbatim>\<open>False\<close> and lets any other
  exception through.\<close>

definition hasattr :: "datetime \<Rightarrow> entity \<Rightarrow> string \<Rightarrow> error + bool" where
  "hasattr t0 e name =
     (case attr_access t0 e name of
        Inr u \<Rightarrow> Inr True
      | Inl (AttributeError n) \<Rightarrow> Inr False
      | Inl err \<Rightarrow> Inl err)"

text \<open>\<^verbatim>\<open>setattr(self, name, value)\<close>: a property without a setter refuses the assignment,
  any other name is bound in the instance.\<close>

definition setattr :: "entity \<Rightarrow> string \<Rightarrow> pyval \<Rightarrow> error + entity" where
  "setattr e name v =
     (if name \<in> set (class_props (cls_of e)) then Inl (AttributeError name)
      else Inr (e\<lparr>inst := AList.update name v (inst e)\<rparr>))"

section \<open>Construction\<close>

text \<open>
  \<^verbatim>\<open>BaseEntity.__init__\<close>:
  \<^verbatim>\<open>self._required = []\<close>
  \<^verbatim>\<open>for key, value in kwargs.items():\<close>
  \<^verbatim>\<open>    if hasattr(self, key): setattr(self, key, value)\<close>
  The keyword arguments are the pairs of the dictionary in its order; positional arguments
  are never read.
\<close>

fun set_kwargs :: "datetime \<Rightarrow> entity \<Rightarrow> (string \<times> pyval) list \<Rightarrow> error + entity" where
  "set_kwargs t0 e [] = Inr e"
| "set_kwargs t0 e ((key, v) # kwargs) =
     (case hasattr t0 e key of
        Inl err \<Rightarrow> Inl err
      | Inr False \<Rightarrow> set_kwargs t0 e kwargs
      | Inr True \<Rightarrow>
          (case setattr e key v of
             Inl err \<Rightarrow> Inl err
           | Inr e' \<Rightarrow> set_kwargs t0 e' kwargs))"

definition base_init :: "datetime \<Rightarrow> entity \<Rightarrow> (string \<times> pyval) list \<Rightarrow> error + entity" where
  "base_init t0 e kwargs =
     set_kwargs t0 (e\<lparr>inst := AList.update ''_required'' (VList []) (inst e)\<rparr>) kwargs"

text \<open>\<^verbatim>\<open>self._required += names\<close>: a list is extended and bound in the instance; no other
  value of the model can be added to a list.\<close>

definition required_add :: "datetime \<Rightarrow> entity \<Rightarrow> string list \<Rightarrow> error + entity" where
  "required_add t0 e names =
     (case get_field t0 e ''_required'' of
        Inl err \<Rightarrow> Inl err
      | Inr (VList xs) \<Rightarrow>
          Inr (e\<lparr>inst := AList.update ''_required'' (VList (xs @ map VStr names)) (inst e)\<rparr>)
      | Inr v \<Rightarrow> Inl TypeError)"

text \<open>\<^verbatim>\<open>self._required.remove(name)\<close>: the first occurrence goes; a \<^verbatim>\<open>ValueError\<close>
  when there is none.\<close>

definition required_remove :: "datetime \<Rightarrow> entity \<Rightarrow> string \<Rightarrow> error + entity" where
  "required_remove t0 e name =
     (case get_field t0 e ''_required'' of
        Inl err \<Rightarrow> Inl err
      | Inr (VList xs) \<Rightarrow>
          if VStr name \<in> set xs
          then Inr (e\<lparr>inst := AList.update ''_required'' (VList (remove1 (VStr name) xs)) (inst e)\<rparr>)
          else Inl ValueError
      | Inr v \<Rightarrow> Inl (AttributeError ''remove''))"

text \<open>The statements of a class's own \<^verbatim>\<open>__init__\<close> after \<^verbatim>\<open>super().__init__(...)\<close>
  has returned; a class without \<^verbatim>\<open>__init__\<close> adds nothing.\<close>

fun init_body :: "datetime \<Rightarrow> cls \<Rightarrow> entity \<Rightarrow> error + entity" where
  "init_body t0 GUIDMixin e = required_add t0 e [''guid'']"
| "init_body t0 HandleMixin e = required_add t0 e [''handle'']"
| "init_body t0 CreatedAtMixin e = required_add t0 e [''created_at'']"
| "init_body t0 RawContentMixin e = required_add t0 e [''raw_content'']"
| "init_body t0 Image e = required_add t0 e [''remote_path'', ''remote_name'']"
| "init_body t0 ParticipationMixin e = required_add t0 e [''target_guid'', ''participation'']"
| "init_body t0 Reaction e = required_add t0 e [''reaction'']"
| "init_body t0 Relationship e = required_add t0 e [''relationship'', ''target_handle'']"
| "init_body t0 Profile e = required_remove t0 e ''guid''"
| "init_body t0 c e = Inr e"

text \<open>
  The chain of \<^verbatim>\<open>super().__init__(*args, **kwargs)\<close> calls runs down the resolution order
  to \<^verbatim>\<open>BaseEntity.__init__\<close>, which calls no further; each class's own statements run on
  the way back. Past the end of the order stands \<^verbatim>\<open>object.__init__\<close>, which takes no
  keyword argument.
\<close>

fun init_chain :: "datetime \<Rightarrow> cls list \<Rightarrow> entity \<Rightarrow> (string \<times> pyval) list \<Rightarrow> error + entity" where
  "init_chain t0 [] e kwargs = (if kwargs = [] then Inr e else Inl TypeError)"
| "init_chain t0 (c # cs) e kwargs =
     (if c = BaseEntity then base_init t0 e kwargs
      else (case init_chain t0 cs e kwargs of
              Inl err \<Rightarrow> Inl err
            | Inr e' \<Rightarrow> init_body t0 c e'))"

text \<open>
  \<^verbatim>\<open>cls(**kwargs)\<close>. Every \<^verbatim>\<open>__init__\<close> has the signature
  \<^verbatim>\<open>(self, *args, **kwargs)\<close>, so a keyword argument named \<^verbatim>\<open>self\<close> collides with
  the instance and the call raises a \<^verbatim>\<open>TypeError\<close> before any body runs.
\<close>

definition construct :: "datetime \<Rightarrow> cls \<Rightarrow> (string \<times> pyval) list \<Rightarrow> error + entity" where
  "construct t0 c kwargs =
     (if ''self'' \<in> fst ` set kwargs then Inl TypeError
      else init_chain t0 (mro c) \<lparr>cls_of = c, inst = []\<rparr> kwargs)"

section \<open>Validation\<close>

text \<open>
  \<^verbatim>\<open>Email().is_valid\<close> comes from the library \<^verbatim>\<open>dirty_validators\<close>; the model takes
  its verdict on a string as a parameter \<open>ev\<close>. What the library does with a value that
  is not a string is outside the model.
\<close>

fun is_valid :: "(string \<Rightarrow> bool) \<Rightarrow> pyval \<Rightarrow> error + bool" where
  "is_valid ev (VStr s) = Inr (ev s)"
| "is_valid ev v = Inl Unmodelled"

text \<open>
  \<^verbatim>\<open>GUIDMixin.validate_guid\<close>:
  \<^verbatim>\<open>if self.guid and len(self.guid) < 16: raise ValueError(...)\<close>
\<close>

definition validate_guid :: "datetime \<Rightarrow> entity \<Rightarrow> error + unit" where
  "validate_guid t0 e =
     (case get_field t0 e ''guid'' of
        Inl err \<Rightarrow> Inl err
      | Inr g \<Rightarrow>
          if \<not> truthy g then Inr ()
          else (case py_len g of
                  Inl err \<Rightarrow> Inl err
                | Inr n \<Rightarrow> if n < 16 then Inl (InvalidField ''guid'') else Inr ()))"

text \<open>\<^verbatim>\<open>HandleMixin.validate_handle\<close> and \<^verbatim>\<open>Relationship.validate_target_handle\<close>:
  \<^verbatim>\<open>if not validator.is_valid(self.handle): raise ValueError(...)\<close>\<close>

definition validate_handle :: "(string \<Rightarrow> bool) \<Rightarrow> datetime \<Rightarrow> entity \<Rightarrow> error + unit" where
  "validate_handle ev t0 e =
     (case get_field t0 e ''handle'' of
        Inl err \<Rightarrow> Inl err
      | Inr h \<Rightarrow>
          (case is_valid ev h of
             Inl err \<Rightarrow> Inl err
           | Inr ok \<Rightarrow> if \<not> ok then Inl (InvalidField ''handle'') else Inr ()))"

definition validate_target_handle :: "(string \<Rightarrow> bool) \<Rightarrow> datetime \<Rightarrow> entity \<Rightarrow> error + unit" where
  "validate_target_handle ev t0 e =
     (case get_field t0 e ''target_handle'' of
        Inl err \<Rightarrow> Inl err
      | Inr h \<Rightarrow>
          (case is_valid ev h of
             Inl err \<Rightarrow> Inl err
           | Inr ok \<Rightarrow> if \<not> ok then Inl (InvalidField ''target_handle'') else Inr ()))"

text \<open>\<^verbatim>\<open>Profile.validate_email\<close>:
  \<^verbatim>\<open>if self.email: ... if not validator.is_valid(self.email): raise ValueError(...)\<close>\<close>

definition validate_email :: "(string \<Rightarrow> bool) \<Rightarrow> datetime \<Rightarrow> entity \<Rightarrow> error + unit" where
  "validate_email ev t0 e =
     (case get_field t0 e ''email'' of
        Inl err \<Rightarrow> Inl err
      | Inr m \<Rightarrow>
          if truthy m
          then (case is_valid ev m of
                  Inl err \<Rightarrow> Inl err
                | Inr ok \<Rightarrow> if \<not> ok then Inl (InvalidField ''email'') else Inr ())
          else Inr ())"

text \<open>The three rules of the shape
  \<^verbatim>\<open>if self.f not in self._f_valid_values: raise ValueError(...)\<close>.\<close>

definition not_in_valid_values :: "datetime \<Rightarrow> entity \<Rightarrow> string \<Rightarrow> string \<Rightarrow> error + unit" where
  "not_in_valid_values t0 e f valid =
     (case get_field t0 e f of
        Inl err \<Rightarrow> Inl err
      | Inr v \<Rightarrow>
          (case get_field t0 e valid of
             Inl err \<Rightarrow> Inl err
           | Inr c \<Rightarrow>
               (case py_in v c of
                  Inl err \<Rightarrow> Inl err
                | Inr True \<Rightarrow> Inr ()
                | Inr False \<Rightarrow> Inl (InvalidField f))))"

definition validate_participation :: "datetime \<Rightarrow> entity \<Rightarrow> error + unit" where
  "validate_participation t0 e =
     not_in_valid_values t0 e ''participation'' ''_participation_valid_values''"

definition validate_reaction :: "datetime \<Rightarrow> entity \<Rightarrow> error + unit" where
  "validate_reaction t0 e = not_in_valid_values t0 e ''reaction'' ''_reaction_valid_values''"

definition validate_relationship :: "datetime \<Rightarrow> entity \<Rightarrow> error + unit" where
  "validate_relationship t0 e =
     not_in_valid_values t0 e ''relationship'' ''_relationship_valid_values''"

text \<open>Calling the method of the class with the given name.\<close>

definition call_method :: "(string \<Rightarrow> bool) \<Rightarrow> datetime \<Rightarrow> entity \<Rightarrow> string \<Rightarrow> error + unit" where
  "call_method ev t0 e m =
     (if m = ''validate_guid'' then validate_guid t0 e
      else if m = ''validate_handle'' then validate_handle ev t0 e
      else if m = ''validate_participation'' then validate_participation t0 e
      else if m = ''validate_reaction'' then validate_reaction t0 e
      else if m = ''validate_target_handle'' then validate_target_handle ev t0 e
      else if m = ''validate_relationship'' then validate_relationship t0 e
      else if m = ''validate_email'' then validate_email ev t0 e
      else Inl Unmodelled)"

text \<open>
  \<^verbatim>\<open>dir(self)\<close> without the names that start with an underscore: the names bound in the
  instance and in the classes of the resolution order, sorted.
\<close>

definition public_dir :: "datetime \<Rightarrow> entity \<Rightarrow> string list" where
  "public_dir t0 e =
     sort (remdups (filter (\<lambda>attr. \<not> startswith attr ''_'')
       (map fst (inst e) @ map fst (class_data t0 (cls_of e)) @ class_methods (cls_of e)
          @ class_props (cls_of e))))"

text \<open>
  One round of the loop of \<^verbatim>\<open>BaseEntity.validate\<close>, for a public name \<open>attr\<close>:
  \<^verbatim>\<open>attr_type = type(getattr(self, attr))\<close>
  \<^verbatim>\<open>if attr_type != "method":\<close>
  \<^verbatim>\<open>    if getattr(self, "validate_{attr}".format(attr=attr), None):\<close>
  \<^verbatim>\<open>        getattr(self, "validate_{attr}".format(attr=attr))()\<close>
  \<^verbatim>\<open>    attributes.append(attr)\<close>
  A type never equals the string \<^verbatim>\<open>"method"\<close>, so the test holds for every name, and
  every public name is appended. A value bound under the validator's name in the instance
  hides the method; it is called when it is true, and no value of the model can be called.
\<close>

definition validate_attr :: "(string \<Rightarrow> bool) \<Rightarrow> datetime \<Rightarrow> entity \<Rightarrow> string \<Rightarrow> error + unit" where
  "validate_attr ev t0 e attr =
     (case attr_access t0 e attr of
        Inl err \<Rightarrow> Inl err
      | Inr u \<Rightarrow>
          (case map_of (inst e @ class_data t0 (cls_of e)) (''validate_'' @ attr) of
             Some v \<Rightarrow> if truthy v then Inl TypeError else Inr ()
           | None \<Rightarrow>
               if ''validate_'' @ attr \<in> set (class_methods (cls_of e))
               then call_method ev t0 e (''validate_'' @ attr)
               else Inr ()))"

fun validate_attrs :: "(string \<Rightarrow> bool) \<Rightarrow> datetime \<Rightarrow> entity \<Rightarrow> string list \<Rightarrow> error + unit" where
  "validate_attrs ev t0 e [] = Inr ()"
| "validate_attrs ev t0 e (attr # attrs) =
     (case validate_attr ev t0 e attr of
        Inl err \<Rightarrow> Inl err
      | Inr u \<Rightarrow> validate_attrs ev t0 e attrs)"

text \<open>
  \<^verbatim>\<open>BaseEntity.validate\<close>. After the loop \<open>attributes\<close> holds every public name:
  \<^verbatim>\<open>required_fulfilled = set(self._required).issubset(set(attributes))\<close>
  \<^verbatim>\<open>if not required_fulfilled: raise ValueError("... Required: {required}".format(required=set(self._required)))\<close>
\<close>

definition validate :: "(string \<Rightarrow> bool) \<Rightarrow> datetime \<Rightarrow> entity \<Rightarrow> error + unit" where
  "validate ev t0 e =
     (let attributes = public_dir t0 e in
      case validate_attrs ev t0 e attributes of
        Inl err \<Rightarrow> Inl err
      | Inr u \<Rightarrow>
          (case get_field t0 e ''_required'' of
             Inl err \<Rightarrow> Inl err
           | Inr r \<Rightarrow>
               (case py_set r of
                  Inl err \<Rightarrow> Inl err
                | Inr required \<Rightarrow>
                    if set required \<subseteq> set (map VStr attributes) then Inr ()
                    else Inl (MissingRequired required))))"

section \<open>Serialisation\<close>

text \<open>The element tree of \<^verbatim>\<open>lxml.etree\<close>: a tag, a text and the children in order.
  \<^verbatim>\<open>etree.Element(tag)\<close> has no text and no child.\<close>

datatype element = Element (el_tag: string) (el_text: pyval) (el_children: "element list")

text \<open>
  Modelled from the spec: \<^verbatim>\<open>struct_to_xml\<close> of \<^verbatim>\<open>federation/entities/diaspora/utils.py\<close>,
  which is not among the sources. The spec has the serialiser emit, for the list of
  one-entry dictionaries it is given, one named element per entry, in the order of the list,
  holding the entry's value, without validating and without failing.
\<close>

fun struct_to_xml :: "element \<Rightarrow> (string \<times> pyval) list list \<Rightarrow> element" where
  "struct_to_xml node [] = node"
| "struct_to_xml node (d # ds) =
     struct_to_xml
       (Element (el_tag node) (el_text node) (el_children node @ map (\<lambda>kv. Element (fst kv) (snd kv) []) d))
       ds"

text \<open>Decimal digits: the last two and the last four of a number, with leading zeros.\<close>

definition digit :: "nat \<Rightarrow> char" where
  "digit n = ''0123456789'' ! (n mod 10)"

definition pad2 :: "nat \<Rightarrow> string" where
  "pad2 n = [digit (n div 10), digit n]"

definition pad4 :: "nat \<Rightarrow> string" where
  "pad4 n = [digit (n div 1000), digit (n div 100), digit (n div 10), digit n]"

text \<open>
  Modelled from the spec: \<^verbatim>\<open>format_dt\<close> of \<^verbatim>\<open>federation/entities/diaspora/utils.py\<close>,
  which is not among the sources. The spec renders a timestamp through one fixed textual
  pattern; the payload fixtures show it: \<^verbatim>\<open>2011-07-20 01:36:07 UTC\<close>. The pattern is
  defined on date-times only.
\<close>

fun format_dt :: "pyval \<Rightarrow> error + pyval" where
  "format_dt (VDateTime d) =
     Inr (VStr (pad4 (year d) @ ''-'' @ pad2 (month d) @ ''-'' @ pad2 (day d) @ '' ''
                @ pad2 (hour d) @ '':'' @ pad2 (minute d) @ '':'' @ pad2 (second d)
                @ '' UTC''))"
| "format_dt v = Inl Unmodelled"

text \<open>\<^verbatim>\<open>'true' if x else 'false'\<close>.\<close>

definition true_false :: "pyval \<Rightarrow> pyval" where
  "true_false x = (if truthy x then VStr ''true'' else VStr ''false'')"

text \<open>\<^verbatim>\<open>" ".join(["#%s" % tag for tag in self.tag_list])\<close>; the format is modelled for
  strings.\<close>

fun hash_tags :: "pyval list \<Rightarrow> error + string list" where
  "hash_tags [] = Inr []"
| "hash_tags (VStr s # vs) =
     (case hash_tags vs of Inl err \<Rightarrow> Inl err | Inr ws \<Rightarrow> Inr ((''#'' @ s) # ws))"
| "hash_tags (v # vs) = Inl Unmodelled"

fun join :: "string \<Rightarrow> string list \<Rightarrow> string" where
  "join sep [] = []"
| "join sep [w] = w"
| "join sep (w # ws) = w @ sep @ join sep ws"

definition tag_string :: "pyval \<Rightarrow> error + pyval" where
  "tag_string tag_list =
     (case py_iter tag_list of
        Inl err \<Rightarrow> Inl err
      | Inr vs \<Rightarrow>
          (case hash_tags vs of
             Inl err \<Rightarrow> Inl err
           | Inr ws \<Rightarrow> Inr (VStr (join '' '' ws))))"

text \<open>Sequencing of computations that may raise.\<close>

definition next_do :: "error + 'a \<Rightarrow> ('a \<Rightarrow> error + 'b) \<Rightarrow> error + 'b" where
  "next_do r f = (case r of Inl err \<Rightarrow> Inl err | Inr x \<Rightarrow> f x)"

text \<open>
  The \<^verbatim>\<open>to_xml\<close> methods of \<^verbatim>\<open>diaspora/entities.py\<close>. Each reads the attributes in the
  order of its list and hands the list to \<^verbatim>\<open>struct_to_xml\<close>.
\<close>

definition DiasporaComment_to_xml :: "datetime \<Rightarrow> entity \<Rightarrow> error + element" where
  "DiasporaComment_to_xml t0 e =
     next_do (get_field t0 e ''guid'') (\<lambda>guid.
     next_do (get_field t0 e ''target_guid'') (\<lambda>target_guid.
     next_do (get_field t0 e ''author_signature'') (\<lambda>author_signature.
     next_do (get_field t0 e ''raw_content'') (\<lambda>raw_content.
     next_do (get_field t0 e ''handle'') (\<lambda>handle.
     Inr (struct_to_xml (Element ''comment'' VNone [])
       [[(''guid'', guid)],
        [(''parent_guid'', target_guid)],
        [(''author_signature'', author_signature)],
        [(''text'', raw_content)],
        [(''diaspora_handle'', handle)]]))))))"

definition DiasporaPost_to_xml :: "datetime \<Rightarrow> entity \<Rightarrow> error + element" where
  "DiasporaPost_to_xml t0 e =
     next_do (get_field t0 e ''raw_content'') (\<lambda>raw_content.
     next_do (get_field t0 e ''guid'') (\<lambda>guid.
     next_do (get_field t0 e ''handle'') (\<lambda>handle.
     next_do (get_field t0 e ''public'') (\<lambda>public.
     next_do (get_field t0 e ''created_at'') (\<lambda>created_at.
     next_do (format_dt created_at) (\<lambda>created.
     Inr (struct_to_xml (Element ''status_message'' VNone [])
       [[(''raw_message'', raw_content)],
        [(''guid'', guid)],
        [(''diaspora_handle'', handle)],
        [(''public'', true_false public)],
        [(''created_at'', created)]])))))))"

definition DiasporaLike_to_xml :: "datetime \<Rightarrow> entity \<Rightarrow> error + element" where
  "DiasporaLike_to_xml t0 e =
     next_do (get_field t0 e ''guid'') (\<lambda>guid.
     next_do (get_field t0 e ''target_guid'') (\<lambda>target_guid.
     next_do (get_field t0 e ''author_signature'') (\<lambda>author_signature.
     next_do (get_field t0 e ''handle'') (\<lambda>handle.
     Inr (struct_to_xml (Element ''like'' VNone [])
       [[(''target_type'', VStr ''Post'')],
        [(''guid'', guid)],
        [(''parent_guid'', target_guid)],
        [(''author_signature'', author_signature)],
        [(''positive'', VStr ''true'')],
        [(''diaspora_handle'', handle)]])))))"

definition DiasporaRequest_to_xml :: "datetime \<Rightarrow> entity \<Rightarrow> error + element" where
  "DiasporaRequest_to_xml t0 e =
     next_do (get_field t0 e ''handle'') (\<lambda>handle.
     next_do (get_field t0 e ''target_handle'') (\<lambda>target_handle.
     Inr (struct_to_xml (Element ''request'' VNone [])
       [[(''sender_handle'', handle)],
        [(''recipient_handle'', target_handle)]])))"

definition DiasporaProfile_to_xml :: "datetime \<Rightarrow> entity \<Rightarrow> error + element" where
  "DiasporaProfile_to_xml t0 e =
     next_do (get_field t0 e ''handle'') (\<lambda>handle.
     next_do (get_field t0 e ''name'') (\<lambda>name.
     next_do (get_field t0 e ''image_urls'') (\<lambda>image_urls.
     next_do (py_getitem image_urls ''large'') (\<lambda>large.
     next_do (py_getitem image_urls ''small'') (\<lambda>small.
     next_do (py_getitem image_urls ''medium'') (\<lambda>medium.
     next_do (get_field t0 e ''gender'') (\<lambda>gender.
     next_do (get_field t0 e ''raw_content'') (\<lambda>raw_content.
     next_do (get_field t0 e ''location'') (\<lambda>location.
     next_do (get_field t0 e ''public'') (\<lambda>public.
     next_do (get_field t0 e ''nsfw'') (\<lambda>nsfw.
     next_do (get_field t0 e ''tag_list'') (\<lambda>tag_list.
     next_do (tag_string tag_list) (\<lambda>tag_str.
     Inr (struct_to_xml (Element ''profile'' VNone [])
       [[(''diaspora_handle'', handle)],
        [(''first_name'', name)],
        [(''last_name'', VStr '''')],
        [(''image_url'', large)],
        [(''image_url_small'', small)],
        [(''image_url_medium'', medium)],
        [(''gender'', gender)],
        [(''bio'', raw_content)],
        [(''location'', location)],
        [(''searchable'', true_false public)],
        [(''nsfw'', true_false nsfw)],
        [(''tag_string'', tag_str)]]))))))))))))))"

text \<open>\<^verbatim>\<open>entity.to_xml()\<close>: the method of the entity's class; the generic classes have
  none.\<close>

fun to_xml_of :: "cls \<Rightarrow> datetime \<Rightarrow> entity \<Rightarrow> error + element" where
  "to_xml_of DiasporaComment t0 e = DiasporaComment_to_xml t0 e"
| "to_xml_of DiasporaPost t0 e = DiasporaPost_to_xml t0 e"
| "to_xml_of DiasporaLike t0 e = DiasporaLike_to_xml t0 e"
| "to_xml_of DiasporaRequest t0 e = DiasporaRequest_to_xml t0 e"
| "to_xml_of DiasporaProfile t0 e = DiasporaProfile_to_xml t0 e"
| "to_xml_of c t0 e = Inl (AttributeError ''to_xml'')"

definition to_xml :: "datetime \<Rightarrow> entity \<Rightarrow> error + element" where
  "to_xml t0 e = to_xml_of (cls_of e) t0 e"

section \<open>Adaptation\<close>

text \<open>
  Modelled from the spec: \<^verbatim>\<open>get_base_attributes\<close> of
  \<^verbatim>\<open>federation/entities/diaspora/utils.py\<close>, which is not among the sources. The spec has
  the adapter copy exactly the fields declared by the entity's schema: the public data
  attributes of its class, neither internal bookkeeping nor methods nor derived values, each
  with the value the entity holds for it.
\<close>

definition schema_fields :: "datetime \<Rightarrow> cls \<Rightarrow> string list" where
  "schema_fields t0 c =
     remdups (filter (\<lambda>name. \<not> startswith name ''_'') (map fst (class_data t0 c)))"

fun read_fields :: "datetime \<Rightarrow> entity \<Rightarrow> string list \<Rightarrow> error + (string \<times> pyval) list" where
  "read_fields t0 e [] = Inr []"
| "read_fields t0 e (f # fs) =
     (case get_field t0 e f of
        Inl err \<Rightarrow> Inl err
      | Inr v \<Rightarrow>
          (case read_fields t0 e fs of
             Inl err \<Rightarrow> Inl err
           | Inr kvs \<Rightarrow> Inr ((f, v) # kvs)))"

definition get_base_attributes :: "datetime \<Rightarrow> entity \<Rightarrow> error + (string \<times> pyval) list" where
  "get_base_attributes t0 e = read_fields t0 e (schema_fields t0 (cls_of e))"

text \<open>\<^verbatim>\<open>DiasporaEntityMixin.from_base\<close>:
  \<^verbatim>\<open>return cls(**get_base_attributes(entity))\<close>\<close>

definition from_base :: "datetime \<Rightarrow> cls \<Rightarrow> entity \<Rightarrow> error + entity" where
  "from_base t0 c entity =
     (case get_base_attributes t0 entity of
        Inl err \<Rightarrow> Inl err
      | Inr kwargs \<Rightarrow> construct t0 c kwargs)"

section \<open>The vocabulary of the claims\<close>

text \<open>The six entity kinds of the catalogue and their protocol forms.\<close>

definition entity_kinds :: "cls list" where
  "entity_kinds = [Post, Image, Comment, Reaction, Relationship, Profile]"

definition protocol_kinds :: "cls list" where
  "protocol_kinds = [DiasporaComment, DiasporaPost, DiasporaLike, DiasporaRequest, DiasporaProfile]"

fun protocol_form :: "cls \<Rightarrow> cls option" where
  "protocol_form Comment = Some DiasporaComment"
| "protocol_form Post = Some DiasporaPost"
| "protocol_form Reaction = Some DiasporaLike"
| "protocol_form Relationship = Some DiasporaRequest"
| "protocol_form Profile = Some DiasporaProfile"
| "protocol_form c = None"

fun generic_of :: "cls \<Rightarrow> cls" where
  "generic_of DiasporaComment = Comment"
| "generic_of DiasporaPost = Post"
| "generic_of DiasporaLike = Reaction"
| "generic_of DiasporaRequest = Relationship"
| "generic_of DiasporaProfile = Profile"
| "generic_of c = c"

text \<open>Every name a class offers: data attributes, methods and properties.\<close>

definition attr_names :: "datetime \<Rightarrow> cls \<Rightarrow> string list" where
  "attr_names t0 c = map fst (class_data t0 c) @ class_methods c @ class_props c"

text \<open>
  The keyword names whose treatment by the constructor is uniform: not a name of the object
  protocol, not the instance parameter \<^verbatim>\<open>self\<close>, and not a property of the class.
\<close>

definition safe_key :: "cls \<Rightarrow> string \<Rightarrow> bool" where
  "safe_key c key =
     (\<not> startswith key ''__'' \<and> key \<noteq> ''self'' \<and> key \<notin> set (class_props c))"

text \<open>
  The composition table of the spec (section 3): the capability units, what each requires,
  the units each kind is composed of, and the requirements a kind adds of its own. A
  protocol form is composed like its generic kind.
\<close>

datatype capability =
  Identity | Authorship | Visibility | Timestamp | TextBody | ParticipationRef | RelationshipRef

fun unit_required :: "capability \<Rightarrow> string set" where
  "unit_required Identity = {''guid''}"
| "unit_required Authorship = {''handle''}"
| "unit_required Visibility = {}"
| "unit_required Timestamp = {''created_at''}"
| "unit_required TextBody = {''raw_content''}"
| "unit_required ParticipationRef = {''target_guid'', ''participation''}"
| "unit_required RelationshipRef = {''relationship'', ''target_handle''}"

fun composed_units :: "cls \<Rightarrow> capability list" where
  "composed_units Post = [TextBody, Identity, Authorship, Visibility, Timestamp]"
| "composed_units Image = [Identity, Authorship, Visibility, Timestamp]"
| "composed_units Comment = [TextBody, Identity, ParticipationRef, Timestamp, Authorship]"
| "composed_units Reaction = [Identity, ParticipationRef, Timestamp, Authorship]"
| "composed_units Relationship = [Timestamp, Authorship, RelationshipRef]"
| "composed_units Profile = [Timestamp, Authorship, TextBody, Visibility, Identity]"
| "composed_units c = []"

fun kind_required :: "cls \<Rightarrow> string set" where
  "kind_required Image = {''remote_path'', ''remote_name''}"
| "kind_required Reaction = {''reaction''}"
| "kind_required c = {}"

definition spec_required :: "cls \<Rightarrow> string set" where
  "spec_required c =
     (\<Union> (unit_required ` set (composed_units (generic_of c))) \<union> kind_required (generic_of c))
       - (if generic_of c = Profile then {''guid''} else {})"

text \<open>
  The shape of a hash word, \<^verbatim>\<open>#word\<close>: one \<^verbatim>\<open>#\<close>, then a non-empty body that neither
  begins nor ends with \<^verbatim>\<open>#\<close>.
\<close>

definition hash_word :: "string \<Rightarrow> bool" where
  "hash_word w =
     (case w of
        [] \<Rightarrow> False
      | c # body \<Rightarrow>
          c = CHR ''#'' \<and> body \<noteq> [] \<and> hd body \<noteq> CHR ''#'' \<and> last body \<noteq> CHR ''#'')"

text \<open>
  The tags as the claim words them: the words of the text that start with \<^verbatim>\<open>#\<close>, each
  with that one-character prefix removed.
\<close>

definition tags_by_prefix :: "string \<Rightarrow> string set" where
  "tags_by_prefix s = set (map tl (filter (\<lambda>word. startswith word ''#'') (split_ws s)))"

text \<open>
  A plain instance binds nothing but fields of its schema and the bookkeeping list
  \<^verbatim>\<open>_required\<close>: what the constructor builds from field values.
\<close>

definition plain :: "datetime \<Rightarrow> entity \<Rightarrow> bool" where
  "plain t0 e = (fst ` set (inst e) \<subseteq> set (schema_fields t0 (cls_of e)) \<union> {''_required''})"

text \<open>The enumerated-kind field of a class and its closed domain, as the claims state them.\<close>

fun enum_field :: "cls \<Rightarrow> (string \<times> string list) option" where
  "enum_field Reaction = Some (''reaction'', [''like''])"
| "enum_field DiasporaLike = Some (''reaction'', [''like''])"
| "enum_field Relationship =
     Some (''relationship'', [''sharing'', ''following'', ''ignoring'', ''blocking''])"
| "enum_field DiasporaRequest =
     Some (''relationship'', [''sharing'', ''following'', ''ignoring'', ''blocking''])"
| "enum_field c = None"

section \<open>Evaluation\<close>

text \<open>The definitions a concrete construction or attribute access unfolds to.\<close>

lemmas class_defs = class_data_def class_methods_def class_props_def

lemmas ctor_defs = construct_def base_init_def hasattr_def attr_access_def startswith_def
  setattr_def required_add_def required_remove_def get_field_def tags_def

section \<open>The resolution order\<close>

text \<open>The order written out in \<open>mro\<close> is the C3 linearisation of the class statements: a
  class, then the merge of the orders of its bases and the list of the bases.\<close>

lemma mro_c3:
  "mro c = c # the (c3_merge 12 (map mro (bases c) @ [bases c])) \<and>
   c3_merge 12 (map mro (bases c) @ [bases c]) \<noteq> None"
  by (cases c) (simp_all add: eval_nat_numeral)

section \<open>The constructor\<close>

text \<open>What the loop over the keyword arguments preserves, and when it succeeds.\<close>

lemma setattr_cls: "setattr e k v = Inr e' \<Longrightarrow> cls_of e' = cls_of e"
  by (auto simp: setattr_def split: if_splits)

lemma setattr_inst: "setattr e k v = Inr e' \<Longrightarrow> inst e' = AList.update k v (inst e)"
  by (auto simp: setattr_def split: if_splits)

lemma set_kwargs_cls: "set_kwargs t0 e kw = Inr e' \<Longrightarrow> cls_of e' = cls_of e"
proof (induction kw arbitrary: e)
  case Nil
  then show ?case by simp
next
  case (Cons kv kw)
  obtain key v where kv: "kv = (key, v)" by (cases kv)
  show ?case using Cons.prems Cons.IH kv
    by (auto split: sum.splits bool.splits dest: setattr_cls)
qed

lemma set_kwargs_untouched:
  "set_kwargs t0 e kw = Inr e' \<Longrightarrow> name \<notin> fst ` set kw \<Longrightarrow>
     map_of (inst e') name = map_of (inst e) name"
proof (induction kw arbitrary: e)
  case Nil
  then show ?case by simp
next
  case (Cons kv kw)
  obtain key v where kv: "kv = (key, v)" by (cases kv)
  from Cons.prems kv have ne: "name \<noteq> key" and rest: "name \<notin> fst ` set kw" by auto
  show ?case
  proof (cases "hasattr t0 e key")
    case (Inl err)
    with Cons.prems kv show ?thesis by simp
  next
    case (Inr b)
    show ?thesis
    proof (cases b)
      case False
      with Inr Cons.prems kv Cons.IH rest show ?thesis by simp
    next
      case True
      with Inr Cons.prems kv obtain e1 where s: "setattr e key v = Inr e1"
        and r: "set_kwargs t0 e1 kw = Inr e'"
        by (auto split: sum.splits)
      from Cons.IH[OF r rest] setattr_inst[OF s] ne show ?thesis
        by (simp add: update_conv')
    qed
  qed
qed

lemma hasattr_safe:
  "safe_key (cls_of e) key \<Longrightarrow>
     hasattr t0 e key =
       Inr (key \<in> fst ` set (inst e) \<or> key \<in> fst ` set (class_data t0 (cls_of e))
            \<or> key \<in> set (class_methods (cls_of e)))"
  by (simp add: hasattr_def attr_access_def safe_key_def)

lemma setattr_safe:
  "safe_key (cls_of e) key \<Longrightarrow> setattr e key v = Inr (e\<lparr>inst := AList.update key v (inst e)\<rparr>)"
  by (simp add: setattr_def safe_key_def)

lemma set_kwargs_ok:
  "\<forall>key \<in> fst ` set kw. safe_key (cls_of e) key \<Longrightarrow> \<exists>e'. set_kwargs t0 e kw = Inr e'"
proof (induction kw arbitrary: e)
  case Nil
  then show ?case by simp
next
  case (Cons kv kw)
  obtain key v where kv: "kv = (key, v)" by (cases kv)
  from Cons.prems kv have k: "safe_key (cls_of e) key"
    and rest: "\<forall>key \<in> fst ` set kw. safe_key (cls_of e) key" by auto
  let ?e1 = "e\<lparr>inst := AList.update key v (inst e)\<rparr>"
  have "\<exists>e'. set_kwargs t0 e kw = Inr e'" using Cons.IH[of e] rest by simp
  moreover have "\<exists>e'. set_kwargs t0 ?e1 kw = Inr e'" using Cons.IH[of ?e1] rest by simp
  ultimately show ?case using kv k
    by (auto simp: hasattr_safe setattr_safe split: bool.splits)
qed

lemma set_kwargs_value:
  "set_kwargs t0 e kw = Inr e' \<Longrightarrow> distinct (map fst kw) \<Longrightarrow> (key, v) \<in> set kw \<Longrightarrow>
   safe_key (cls_of e) key \<Longrightarrow>
   key \<in> fst ` set (class_data t0 (cls_of e)) \<or> key \<in> set (class_methods (cls_of e)) \<Longrightarrow>
   map_of (inst e') key = Some v"
proof (induction kw arbitrary: e)
  case Nil
  then show ?case by simp
next
  case (Cons kv kw)
  obtain k1 v1 where kv: "kv = (k1, v1)" by (cases kv)
  show ?case
  proof (cases "k1 = key")
    case True
    with Cons.prems kv have v1: "v1 = v" and notin: "key \<notin> fst ` set kw"
      by (auto simp: image_iff)
    let ?e1 = "e\<lparr>inst := AList.update key v (inst e)\<rparr>"
    from Cons.prems kv True v1 have r: "set_kwargs t0 ?e1 kw = Inr e'"
      by (simp add: hasattr_safe setattr_safe)
    from set_kwargs_untouched[OF r notin] show ?thesis by (simp add: update_conv')
  next
    case False
    with Cons.prems kv have mem: "(key, v) \<in> set kw" and d: "distinct (map fst kw)" by auto
    from Cons.prems(1) kv obtain e1 where r: "set_kwargs t0 e1 kw = Inr e'" and c: "cls_of e1 = cls_of e"
      by (auto split: sum.splits bool.splits dest: setattr_cls)
    show ?thesis using Cons.IH[OF r d mem] Cons.prems(4,5) c by simp
  qed
qed


lemma safe_keyD:
  "safe_key c key \<Longrightarrow> \<not> startswith key ''__'' \<and> key \<noteq> ''self'' \<and> key \<notin> set (class_props c)"
  by (simp add: safe_key_def)

lemma hasattr_no_attr:
  assumes "fst ` set (inst e) \<subseteq> set (attr_names t0 (cls_of e))"
    and "\<not> startswith key ''__''" and "key \<notin> set (attr_names t0 (cls_of e))"
  shows "hasattr t0 e key = Inr False"
proof -
  from assms(3) have "key \<notin> set (class_props (cls_of e))"
    and "key \<notin> fst ` set (class_data t0 (cls_of e))" and "key \<notin> set (class_methods (cls_of e))"
    by (auto simp: attr_names_def)
  moreover from assms(1,3) have "key \<notin> fst ` set (inst e)" by blast
  ultimately show ?thesis using assms(2) by (simp add: hasattr_def attr_access_def)
qed

lemma set_kwargs_filter:
  assumes "fst ` set (inst e) \<subseteq> set (attr_names t0 (cls_of e))"
    and "\<forall>key \<in> fst ` set kw. \<not> startswith key ''__''"
  shows "set_kwargs t0 e (filter (\<lambda>kv. fst kv \<in> set (attr_names t0 (cls_of e))) kw) =
         set_kwargs t0 e kw"
  using assms
proof (induction kw arbitrary: e)
  case Nil
  then show ?case by simp
next
  case (Cons kv kw)
  obtain key v where kv: "kv = (key, v)" by (cases kv)
  from Cons.prems(2) kv have nd: "\<not> startswith key ''__''"
    and rest: "\<forall>key \<in> fst ` set kw. \<not> startswith key ''__''" by auto
  show ?case
  proof (cases "key \<in> set (attr_names t0 (cls_of e))")
    case False
    from hasattr_no_attr[OF Cons.prems(1) nd False] Cons.IH[OF Cons.prems(1) rest] kv False
    show ?thesis by simp
  next
    case True
    have step: "set_kwargs t0 e1 (filter (\<lambda>kv. fst kv \<in> set (attr_names t0 (cls_of e))) kw) =
                set_kwargs t0 e1 kw" if s: "setattr e key v = Inr e1" for e1
    proof -
      from setattr_cls[OF s] have c: "cls_of e1 = cls_of e" .
      from setattr_inst[OF s] Cons.prems(1) True
      have "fst ` set (inst e1) \<subseteq> set (attr_names t0 (cls_of e1))"
        by (auto simp: c dom_update)
      from Cons.IH[OF this rest] show ?thesis by (simp add: c)
    qed
    show ?thesis using kv True step Cons.IH[OF Cons.prems(1) rest]
      by (auto split: sum.splits bool.splits)
  qed
qed

lemma required_is_attr:
  "BaseEntity \<in> set (mro c) \<Longrightarrow> ''_required'' \<in> set (attr_names t0 c)"
  by (force simp: attr_names_def class_data_def)

lemma init_chain_filter:
  assumes "BaseEntity \<in> set cs" and "''_required'' \<in> set (attr_names t0 (cls_of e))"
    and "fst ` set (inst e) \<subseteq> set (attr_names t0 (cls_of e))"
    and "\<forall>key \<in> fst ` set kw. \<not> startswith key ''__''"
  shows "init_chain t0 cs e (filter (\<lambda>kv. fst kv \<in> set (attr_names t0 (cls_of e))) kw) =
         init_chain t0 cs e kw"
  using assms(1)
proof (induction cs)
  case Nil
  then show ?case by simp
next
  case (Cons c cs)
  show ?case
  proof (cases "c = BaseEntity")
    case True
    let ?e = "e\<lparr>inst := AList.update ''_required'' (VList []) (inst e)\<rparr>"
    have "fst ` set (inst ?e) \<subseteq> set (attr_names t0 (cls_of ?e))"
      using assms(2,3) by (auto simp: dom_update)
    from set_kwargs_filter[OF this assms(4)] True show ?thesis
      by (simp add: base_init_def)
  next
    case False
    with Cons show ?thesis by simp
  qed
qed

lemma construct_filter:
  assumes "BaseEntity \<in> set (mro c)"
    and "\<forall>key \<in> fst ` set kw. \<not> startswith key ''__'' \<and> key \<noteq> ''self''"
  shows "construct t0 c (filter (\<lambda>kv. fst kv \<in> set (attr_names t0 c)) kw) = construct t0 c kw"
proof -
  let ?e = "\<lparr>cls_of = c, inst = []\<rparr>"
  have "init_chain t0 (mro c) ?e (filter (\<lambda>kv. fst kv \<in> set (attr_names t0 (cls_of ?e))) kw) =
        init_chain t0 (mro c) ?e kw"
    using assms required_is_attr[OF assms(1)] by (intro init_chain_filter) auto
  moreover from assms(2) have "''self'' \<notin> fst ` set kw" by blast
  moreover from this have "''self'' \<notin> fst ` set (filter (\<lambda>kv. fst kv \<in> set (attr_names t0 c)) kw)"
    by auto
  ultimately show ?thesis by (simp add: construct_def)
qed

lemma base_init_facts:
  assumes "base_init t0 \<lparr>cls_of = c, inst = []\<rparr> kw = Inr e1"
  shows "cls_of e1 = c"
    and "''_required'' \<notin> fst ` set kw \<Longrightarrow> map_of (inst e1) ''_required'' = Some (VList [])"
  using assms set_kwargs_cls[of t0 _ kw e1] set_kwargs_untouched[of t0 _ kw e1 "''_required''"]
  by (auto simp: base_init_def)

lemma base_init_ok:
  assumes "\<forall>key \<in> fst ` set kw. safe_key c key"
  shows "\<exists>e1. base_init t0 \<lparr>cls_of = c, inst = []\<rparr> kw = Inr e1"
  unfolding base_init_def using assms by (intro set_kwargs_ok) simp

lemma construct_base:
  assumes "construct t0 c kw = Inr e" and "BaseEntity \<in> set (mro c)"
  shows "\<exists>e1. base_init t0 \<lparr>cls_of = c, inst = []\<rparr> kw = Inr e1"
proof (cases "base_init t0 \<lparr>cls_of = c, inst = []\<rparr> kw")
  case (Inr e1)
  then show ?thesis by simp
next
  case (Inl err)
  with assms show ?thesis
    by (cases c) (simp_all add: construct_def split: if_splits)
qed

lemma not_prop: "name \<noteq> ''tags'' \<Longrightarrow> name \<notin> set (class_props c)"
  by (cases c) (simp_all add: class_props_def)

lemma get_field_inst:
  "map_of (inst e) name = Some v \<Longrightarrow> name \<noteq> ''tags'' \<Longrightarrow> get_field t0 e name = Inr v"
  by (simp add: get_field_def not_prop)

lemma required_add_list:
  "map_of (inst e) ''_required'' = Some (VList xs) \<Longrightarrow>
     required_add t0 e names =
       Inr (e\<lparr>inst := AList.update ''_required'' (VList (xs @ map VStr names)) (inst e)\<rparr>)"
  by (simp add: required_add_def get_field_inst)

lemma required_remove_list:
  "map_of (inst e) ''_required'' = Some (VList xs) \<Longrightarrow> VStr name \<in> set xs \<Longrightarrow>
     required_remove t0 e name =
       Inr (e\<lparr>inst := AList.update ''_required'' (VList (remove1 (VStr name) xs)) (inst e)\<rparr>)"
  by (simp add: required_remove_def get_field_inst)

lemma construct_exists:
  assumes "BaseEntity \<in> set (mro c)" and "''self'' \<notin> fst ` set kw"
    and "base_init t0 \<lparr>cls_of = c, inst = []\<rparr> kw = Inr e1"
    and "map_of (inst e1) ''_required'' = Some (VList [])"
  shows "\<exists>e. construct t0 c kw = Inr e"
  using assms
  by (cases c)
     (simp_all add: construct_def required_add_list required_remove_list update_conv')

lemma construct_shape:
  assumes "construct t0 c kw = Inr e" and "BaseEntity \<in> set (mro c)"
    and "base_init t0 \<lparr>cls_of = c, inst = []\<rparr> kw = Inr e1"
    and "cls_of e1 = c" and "map_of (inst e1) ''_required'' = Some (VList [])"
  shows "cls_of e = c \<and>
         (\<forall>name. name \<noteq> ''_required'' \<longrightarrow> map_of (inst e) name = map_of (inst e1) name) \<and>
         (\<exists>xs. map_of (inst e) ''_required'' = Some (VList xs) \<and>
            (c \<in> set (entity_kinds @ protocol_kinds) \<longrightarrow> set xs = VStr ` spec_required c))"
  using assms
  by (cases c)
     (auto simp: construct_def required_add_list required_remove_list
        update_conv' entity_kinds_def protocol_kinds_def spec_required_def split: if_splits)

text \<open>What construction from uniform keywords yields: the instance, its bindings, the
  names it leaves unbound, and that the keywords naming no attribute make no difference.\<close>

lemma construct_bindings:
  assumes "BaseEntity \<in> set (mro c)"
    and "\<forall>key \<in> fst ` set kwargs. safe_key c key \<and> key \<noteq> ''_required''"
    and "distinct (map fst kwargs)"
  shows "\<exists>e. construct t0 c kwargs = Inr e \<and> cls_of e = c \<and>
           (\<forall>(key, v) \<in> set kwargs.
              key \<in> set (attr_names t0 c) \<longrightarrow> map_of (inst e) key = Some v) \<and>
           (\<forall>name. name \<notin> fst ` set kwargs \<and> name \<noteq> ''_required'' \<longrightarrow>
              map_of (inst e) name = None) \<and>
           construct t0 c (filter (\<lambda>kv. fst kv \<in> set (attr_names t0 c)) kwargs) = Inr e"
proof -
  let ?e0 = "\<lparr>cls_of = c, inst = []\<rparr>"
  let ?b = "?e0\<lparr>inst := AList.update ''_required'' (VList []) (inst ?e0)\<rparr>"
  from assms(2) have safe: "\<forall>key \<in> fst ` set kwargs. safe_key c key"
    and nr: "''_required'' \<notin> fst ` set kwargs" by auto
  from safe have ns: "''self'' \<notin> fst ` set kwargs" by (auto simp: safe_key_def)
  from base_init_ok[OF safe] obtain e1 where e1: "base_init t0 ?e0 kwargs = Inr e1" ..
  then have r: "set_kwargs t0 ?b kwargs = Inr e1" by (simp add: base_init_def)
  note f = base_init_facts[OF e1]
  from construct_exists[OF assms(1) ns e1 f(2)[OF nr]] obtain e
    where e: "construct t0 c kwargs = Inr e" ..
  from construct_shape[OF e assms(1) e1 f(1) f(2)[OF nr]]
  have same: "\<And>name. name \<noteq> ''_required'' \<Longrightarrow> map_of (inst e) name = map_of (inst e1) name"
    and cls: "cls_of e = c"
    by blast+
  have sets: "map_of (inst e) key = Some v"
    if mem: "(key, v) \<in> set kwargs" and attr: "key \<in> set (attr_names t0 c)" for key v
  proof -
    from mem assms(2) have sk: "safe_key c key" and k: "key \<noteq> ''_required''" by force+
    from sk attr have "key \<in> fst ` set (class_data t0 c) \<or> key \<in> set (class_methods c)"
      by (auto simp: safe_key_def attr_names_def)
    then have "map_of (inst e1) key = Some v"
      using set_kwargs_value[OF r assms(3) mem] sk by simp
    with same[OF k] show ?thesis by simp
  qed
  have unbound: "map_of (inst e) name = None"
    if "name \<notin> fst ` set kwargs" and k: "name \<noteq> ''_required''" for name
    using set_kwargs_untouched[OF r that(1)] same[OF k] k by simp
  from safe have "\<forall>key \<in> fst ` set kwargs. \<not> startswith key ''__'' \<and> key \<noteq> ''self''"
    by (auto simp: safe_key_def)
  from construct_filter[OF assms(1) this] e
  have "construct t0 c (filter (\<lambda>kv. fst kv \<in> set (attr_names t0 c)) kwargs) = Inr e" by simp
  with e cls sets unbound show ?thesis by blast
qed

section \<open>The adapter\<close>

text \<open>The schema of a class is made of data attributes, all of them readable; the protocol
  form of a kind inherits them.\<close>

lemma tags_not_data: "''tags'' \<notin> fst ` set (class_data t0 c)"
  by (cases c) (simp_all add: class_data_def)

lemma self_not_data: "''self'' \<notin> fst ` set (class_data t0 c)"
  by (cases c) (simp_all add: class_data_def)

lemma get_field_declared:
  assumes "name \<in> fst ` set (class_data t0 (cls_of e))"
  shows "\<exists>v. get_field t0 e name = Inr v"
proof -
  from assms tags_not_data[of t0 "cls_of e"] have "name \<noteq> ''tags''" by blast
  then have np: "name \<notin> set (class_props (cls_of e))" by (rule not_prop)
  from assms obtain v where "map_of (class_data t0 (cls_of e)) name = Some v"
    by (metis domD dom_map_of_conv_image_fst)
  with np show ?thesis by (simp add: get_field_def split: option.splits)
qed

lemma read_fields_ok:
  assumes "set fs \<subseteq> fst ` set (class_data t0 (cls_of e))"
  shows "\<exists>kvs. read_fields t0 e fs = Inr kvs \<and> map fst kvs = fs \<and>
           (\<forall>(f, v) \<in> set kvs. get_field t0 e f = Inr v)"
  using assms
proof (induction fs)
  case Nil
  then show ?case by simp
next
  case (Cons f fs)
  then obtain kvs where "read_fields t0 e fs = Inr kvs" "map fst kvs = fs"
    "\<forall>(f, v) \<in> set kvs. get_field t0 e f = Inr v" by auto
  moreover from Cons.prems get_field_declared[of f t0 e] obtain v where "get_field t0 e f = Inr v"
    by auto
  ultimately show ?case by auto
qed

lemma schema_fields_data: "set (schema_fields t0 c) \<subseteq> fst ` set (class_data t0 c)"
  by (auto simp: schema_fields_def)

lemma schema_fields_public: "f \<in> set (schema_fields t0 c) \<Longrightarrow> \<not> startswith f ''_''"
  by (simp add: schema_fields_def)

lemma dunder_private: "startswith f ''__'' \<Longrightarrow> startswith f ''_''"
  by (cases f) (auto simp: startswith_def split: if_splits)

lemma protocol_form_data:
  "protocol_form g = Some p \<Longrightarrow> fst ` set (class_data t0 g) \<subseteq> fst ` set (class_data t0 p)"
  by (cases g) (auto simp: class_data_def)

lemma protocol_form_base: "protocol_form g = Some p \<Longrightarrow> BaseEntity \<in> set (mro p)"
  by (cases g) auto

lemma author_signature_default:
  assumes "protocol_form g = Some p"
  shows "''author_signature'' \<notin> set (schema_fields t0 g) \<and>
         (p = DiasporaComment \<or> p = DiasporaLike \<longrightarrow>
            map_of (class_data t0 p) ''author_signature'' = Some (VStr ''''))"
  using assms by (cases g) (auto simp: schema_fields_def class_data_def startswith_def)

section \<open>Validators and tags\<close>

text \<open>The loop of \<open>validate\<close> finds \<^verbatim>\<open>validate_guid\<close> for the attribute \<^verbatim>\<open>guid\<close> of
  every class that derives from \<^verbatim>\<open>GUIDMixin\<close>, unless the instance hides the method.\<close>

lemma validator_lookup:
  assumes "GUIDMixin \<in> set (mro (cls_of e))" and "''validate_guid'' \<notin> fst ` set (inst e)"
  shows "validate_attr ev t0 e ''guid'' = validate_guid t0 e"
proof -
  from assms(2) have n: "map_of (inst e) ''validate_guid'' = None"
    by (simp add: map_of_eq_None_iff)
  from assms(1) show ?thesis
    by (cases "cls_of e")
       (simp_all add: validate_attr_def attr_access_def startswith_def class_defs n
          call_method_def map_add_def)
qed

text \<open>Words joined by single spaces are what \<^verbatim>\<open>split()\<close> returns; on a hash word
  \<^verbatim>\<open>strip("#")\<close> removes the prefix and nothing else.\<close>

lemma split_from_word:
  "\<not> (\<exists>c \<in> set w. is_space c) \<Longrightarrow> split_from (w @ rest) acc = split_from rest (acc @ w)"
  by (induction w arbitrary: acc) auto

lemma split_ws_join:
  "\<forall>w \<in> set ws. w \<noteq> [] \<and> \<not> (\<exists>c \<in> set w. is_space c) \<Longrightarrow> split_ws (join '' '' ws) = ws"
proof (induction "'' ''" ws rule: join.induct)
  case 1
  then show ?case by (simp add: split_ws_def)
next
  case (2 w)
  then show ?case using split_from_word[of w "[]" "[]"] by (simp add: split_ws_def)
next
  case (3 w v vs)
  from 3 have "split_ws (join '' '' (v # vs)) = v # vs" by simp
  moreover from 3 have "split_from (w @ '' '' @ join '' '' (v # vs)) [] =
      split_from ('' '' @ join '' '' (v # vs)) w"
    using split_from_word[of w "'' '' @ join '' '' (v # vs)" "[]"] by simp
  moreover have "is_space CHR '' ''" by (simp add: is_space_def)
  moreover from 3 have "w \<noteq> []" by simp
  ultimately show ?case by (simp add: split_ws_def)
qed

lemma strip_hash_word:
  assumes "hash_word w"
  shows "strip w ''#'' = tl w"
proof (cases w)
  case Nil
  with assms show ?thesis by (simp add: hash_word_def)
next
  case (Cons c body)
  show ?thesis
  proof (cases "body = []")
    case True
    with assms Cons show ?thesis by (simp add: hash_word_def strip_def)
  next
    case False
    with assms Cons have a: "hd body \<noteq> CHR ''#''" and b: "last body \<noteq> CHR ''#''"
      and c: "c = CHR ''#''"
      by (auto simp: hash_word_def)
    from False a have "dropWhile (\<lambda>c. c \<in> set ''#'') body = body"
      by (cases body) auto
    moreover from False b have "dropWhile (\<lambda>c. c \<in> set ''#'') (rev body) = rev body"
      by (cases body rule: rev_cases) auto
    ultimately show ?thesis using Cons c by (simp add: strip_def)
  qed
qed

text \<open>What \<^verbatim>\<open>strip("#")\<close> does to any word: it takes a run of \<^verbatim>\<open>#\<close> from each end, and
  what is left, unless empty, neither begins nor ends with \<^verbatim>\<open>#\<close>.\<close>

lemma all_same_replicate: "\<forall>x \<in> set xs. x = a \<Longrightarrow> xs = replicate (length xs) a"
  by (induction xs) auto

lemma takeWhile_hashes:
  "takeWhile (\<lambda>c. c \<in> set ''#'') w =
     replicate (length (takeWhile (\<lambda>c. c \<in> set ''#'') w)) CHR ''#''"
proof (rule all_same_replicate)
  show "\<forall>x\<in>set (takeWhile (\<lambda>c. c \<in> set ''#'') w). x = CHR ''#''"
    using set_takeWhileD[of _ "\<lambda>c. c \<in> set ''#''" w] by auto
qed

lemma strip_shape:
  "\<exists>m n. w = replicate m CHR ''#'' @ strip w ''#'' @ replicate n CHR ''#''"
proof -
  let ?P = "\<lambda>c. c \<in> set ''#''"
  let ?u = "dropWhile ?P w"
  let ?d = "dropWhile ?P (rev ?u)"
  let ?m = "length (takeWhile ?P w)"
  let ?n = "length (takeWhile ?P (rev ?u))"
  have a: "takeWhile ?P w = replicate ?m CHR ''#''" by (rule takeWhile_hashes)
  have "takeWhile ?P (rev ?u) = replicate ?n CHR ''#''" by (rule takeWhile_hashes)
  then have "rev (takeWhile ?P (rev ?u)) = rev (replicate ?n CHR ''#'')" by (rule arg_cong)
  then have b: "rev (takeWhile ?P (rev ?u)) = replicate ?n CHR ''#''" by (simp only: rev_replicate)
  have "rev ?u = takeWhile ?P (rev ?u) @ ?d" by (simp only: takeWhile_dropWhile_id)
  then have "rev (rev ?u) = rev (takeWhile ?P (rev ?u) @ ?d)" by (rule arg_cong)
  then have c: "?u = rev ?d @ rev (takeWhile ?P (rev ?u))" by (simp only: rev_rev_ident rev_append)
  have s: "strip w ''#'' = rev ?d" by (simp only: strip_def)
  have "w = takeWhile ?P w @ ?u" by (simp only: takeWhile_dropWhile_id)
  also have "\<dots> = takeWhile ?P w @ rev ?d @ rev (takeWhile ?P (rev ?u))"
    using c by (rule arg_cong)
  finally have "w = replicate ?m CHR ''#'' @ strip w ''#'' @ replicate ?n CHR ''#''"
    using a b s by (simp only:)
  then show ?thesis by (intro exI)
qed

lemma strip_ends_pred:
  assumes "rev (dropWhile P (rev (dropWhile P w))) \<noteq> []"
  shows "\<not> P (hd (rev (dropWhile P (rev (dropWhile P w))))) \<and>
         \<not> P (last (rev (dropWhile P (rev (dropWhile P w)))))"
proof -
  define u where "u = dropWhile P w"
  define d where "d = dropWhile P (rev u)"
  from assms have d: "d \<noteq> []"
    unfolding d_def u_def by (simp only: rev_is_Nil_conv not_False_eq_True)
  have u: "u \<noteq> []"
  proof
    assume "u = []"
    then have "d = []" unfolding d_def by (simp only: rev.simps dropWhile.simps)
    with d show False by (rule notE)
  qed
  from d have pd: "\<not> P (hd d)" unfolding d_def by (rule hd_dropWhile)
  from u have pu: "\<not> P (hd u)" unfolding u_def by (rule hd_dropWhile)
  from d have l: "last (rev d) = hd d" by (simp only: last_rev)
  from d have h: "hd (rev d) = last d" by (simp only: hd_rev)
  have "rev u = takeWhile P (rev u) @ d" unfolding d_def by (simp only: takeWhile_dropWhile_id)
  then have "last (rev u) = last (takeWhile P (rev u) @ d)" by (rule arg_cong)
  with d have "last (rev u) = last d" by simp
  moreover from u have "last (rev u) = hd u" by (simp only: last_rev)
  ultimately have "last d = hd u" by simp
  with h pu have "\<not> P (hd (rev d))" by simp
  moreover from l pd have "\<not> P (last (rev d))" by simp
  ultimately show ?thesis unfolding d_def u_def by (rule conjI)
qed

lemma strip_ends:
  assumes "strip w ''#'' \<noteq> []"
  shows "hd (strip w ''#'') \<noteq> CHR ''#'' \<and> last (strip w ''#'') \<noteq> CHR ''#''"
proof -
  from assms have
    "rev (dropWhile (\<lambda>c. c \<in> set ''#'') (rev (dropWhile (\<lambda>c. c \<in> set ''#'') w))) \<noteq> []"
    unfolding strip_def .
  from strip_ends_pred [OF this] have
    "hd (strip w ''#'') \<notin> set ''#'' \<and> last (strip w ''#'') \<notin> set ''#''"
    unfolding strip_def .
  then show ?thesis by simp
qed

section \<open>Validation of plain instances\<close>

text \<open>On a plain instance \<^verbatim>\<open>dir\<close> lists the names of the class alone, no validator is
  hidden and the lists of valid values are those of the class.\<close>

lemma sort_remdups_cong: "set xs = set ys \<Longrightarrow> sort (remdups xs) = sort (remdups ys)"
  by (metis sorted_list_of_set_sort_remdups)

lemma public_dir_plain:
  assumes "plain t0 e"
  shows "public_dir t0 e =
           sort (remdups (filter (\<lambda>attr. \<not> startswith attr ''_'')
             (map fst (class_data t0 (cls_of e)) @ class_methods (cls_of e)
                @ class_props (cls_of e))))"
proof -
  have "\<not> startswith a ''_'' \<Longrightarrow> a \<in> fst ` set (inst e) \<Longrightarrow> a \<in> fst ` set (class_data t0 (cls_of e))"
    for a
    using assms schema_fields_data[of t0 "cls_of e"] by (auto simp: plain_def startswith_def)
  then show ?thesis
    unfolding public_dir_def by (intro sort_remdups_cong) auto
qed

lemma plain_unbound:
  "plain t0 e \<Longrightarrow> name \<notin> set (schema_fields t0 (cls_of e)) \<Longrightarrow> name \<noteq> ''_required'' \<Longrightarrow>
     map_of (inst e) name = None"
  by (auto simp: plain_def map_of_eq_None_iff)

lemma get_field_class:
  "map_of (inst e) name = None \<Longrightarrow> map_of (class_data t0 (cls_of e)) name = Some v \<Longrightarrow>
     name \<noteq> ''tags'' \<Longrightarrow> get_field t0 e name = Inr v"
  by (simp add: get_field_def not_prop)

lemma not_in_valid_values_list:
  "get_field t0 e f = Inr v \<Longrightarrow> get_field t0 e valid = Inr (VList xs) \<Longrightarrow> list_all is_str xs \<Longrightarrow>
     not_in_valid_values t0 e f valid = (if v \<in> set xs then Inr () else Inl (InvalidField f))"
  by (simp add: not_in_valid_values_def)


lemma dir_Reaction:
  "sort (remdups (filter (\<lambda>attr. \<not> startswith attr ''_'')
     (map fst (class_data t0 Reaction) @ class_methods Reaction @ class_props Reaction))) =
   [''created_at'', ''guid'', ''handle'', ''participation'', ''reaction'',
      ''target_guid'', ''validate'', ''validate_guid'', ''validate_handle'',
      ''validate_participation'', ''validate_reaction'']"
  by (simp add: class_defs startswith_def)

lemma schema_Reaction:
  "schema_fields t0 Reaction =
     [''reaction'', ''guid'', ''target_guid'', ''participation'', ''created_at'',
      ''handle'']"
  by (simp add: schema_fields_def class_defs startswith_def)

lemma reaction_rule_Reaction:
  assumes c: "cls_of e = Reaction" and p: "plain t0 e"
    and hh: "get_field t0 e ''handle'' = Inr (VStr hs)"
    and g: "get_field t0 e ''guid'' = Inr (VStr g)"
    and r: "get_field t0 e ''reaction'' = Inr v"
  shows "validate_attr ev t0 e ''reaction'' =
           (if v \<in> set [VStr ''like''] then Inr () else Inl (InvalidField ''reaction'')) \<and>
         (v \<notin> set [VStr ''like''] \<longrightarrow> (\<exists>f. validate ev t0 e = Inl (InvalidField f)))"
proof -
  obtain q where q: "get_field t0 e ''participation'' = Inr q"
    using get_field_declared[of "''participation''" t0 e] c by (auto simp: class_data_def)
  note ub = plain_unbound[OF p, unfolded c schema_Reaction]
  have pv: "get_field t0 e ''_participation_valid_values'' =
              Inr (VList [VStr ''reaction'', VStr ''subscription'', VStr ''comment''])"
    by (rule get_field_class) (simp_all add: ub c class_data_def)
  have rv: "get_field t0 e ''_reaction_valid_values'' = Inr (VList [VStr ''like''])"
    by (rule get_field_class) (simp_all add: ub c class_data_def)
  have dir: "public_dir t0 e =
     [''created_at'', ''guid'', ''handle'', ''participation'', ''reaction'',
      ''target_guid'', ''validate'', ''validate_guid'', ''validate_handle'',
      ''validate_participation'', ''validate_reaction'']"
    by (simp only: public_dir_plain[OF p] c dir_Reaction)
  note va = validate_attr_def attr_access_def startswith_def c class_defs ub map_add_def
    call_method_def
  have a1: "validate_attr ev t0 e ''created_at'' = Inr ()"
    by (simp add: va)
  have a2: "validate_attr ev t0 e ''guid'' = validate_guid t0 e"
    by (simp add: va)
  have a3: "validate_attr ev t0 e ''handle'' = validate_handle ev t0 e"
    by (simp add: va)
  have a4: "validate_attr ev t0 e ''participation'' = validate_participation t0 e"
    by (simp add: va)
  have a5: "validate_attr ev t0 e ''reaction'' = validate_reaction t0 e"
    by (simp add: va)
  have r5: "validate_reaction t0 e =
              (if v \<in> set [VStr ''like''] then Inr () else Inl (InvalidField ''reaction''))"
    by (simp add: validate_reaction_def not_in_valid_values_list[OF r rv])
  have "\<exists>f. validate ev t0 e = Inl (InvalidField f)" if "v \<notin> set [VStr ''like'']"
    using that
    by (auto simp: validate_def dir a1 a2 a3 a4 a5 r5 validate_guid_def g validate_handle_def hh
        validate_participation_def not_in_valid_values_list[OF q pv])
  with a5 r5 show ?thesis by simp
qed

lemma dir_DiasporaLike:
  "sort (remdups (filter (\<lambda>attr. \<not> startswith attr ''_'')
     (map fst (class_data t0 DiasporaLike) @ class_methods DiasporaLike @ class_props DiasporaLike))) =
   [''author_signature'', ''created_at'', ''from_base'', ''guid'', ''handle'',
      ''participation'', ''reaction'', ''target_guid'', ''to_xml'', ''validate'',
      ''validate_guid'', ''validate_handle'', ''validate_participation'',
      ''validate_reaction'']"
  by (simp add: class_defs startswith_def)

lemma schema_DiasporaLike:
  "schema_fields t0 DiasporaLike =
     [''author_signature'', ''reaction'', ''guid'', ''target_guid'', ''participation'',
      ''created_at'', ''handle'']"
  by (simp add: schema_fields_def class_defs startswith_def)

lemma reaction_rule_DiasporaLike:
  assumes c: "cls_of e = DiasporaLike" and p: "plain t0 e"
    and hh: "get_field t0 e ''handle'' = Inr (VStr hs)"
    and g: "get_field t0 e ''guid'' = Inr (VStr g)"
    and r: "get_field t0 e ''reaction'' = Inr v"
  shows "validate_attr ev t0 e ''reaction'' =
           (if v \<in> set [VStr ''like''] then Inr () else Inl (InvalidField ''reaction'')) \<and>
         (v \<notin> set [VStr ''like''] \<longrightarrow> (\<exists>f. validate ev t0 e = Inl (InvalidField f)))"
proof -
  obtain q where q: "get_field t0 e ''participation'' = Inr q"
    using get_field_declared[of "''participation''" t0 e] c by (auto simp: class_data_def)
  note ub = plain_unbound[OF p, unfolded c schema_DiasporaLike]
  have pv: "get_field t0 e ''_participation_valid_values'' =
              Inr (VList [VStr ''reaction'', VStr ''subscription'', VStr ''comment''])"
    by (rule get_field_class) (simp_all add: ub c class_data_def)
  have rv: "get_field t0 e ''_reaction_valid_values'' = Inr (VList [VStr ''like''])"
    by (rule get_field_class) (simp_all add: ub c class_data_def)
  have dir: "public_dir t0 e =
     [''author_signature'', ''created_at'', ''from_base'', ''guid'', ''handle'',
      ''participation'', ''reaction'', ''target_guid'', ''to_xml'', ''validate'',
      ''validate_guid'', ''validate_handle'', ''validate_participation'',
      ''validate_reaction'']"
    by (simp only: public_dir_plain[OF p] c dir_DiasporaLike)
  note va = validate_attr_def attr_access_def startswith_def c class_defs ub map_add_def
    call_method_def
  have a0: "validate_attr ev t0 e ''author_signature'' = Inr ()"
    "validate_attr ev t0 e ''from_base'' = Inr ()"
    by (simp_all add: va)
  have a1: "validate_attr ev t0 e ''created_at'' = Inr ()"
    by (simp add: va)
  have a2: "validate_attr ev t0 e ''guid'' = validate_guid t0 e"
    by (simp add: va)
  have a3: "validate_attr ev t0 e ''handle'' = validate_handle ev t0 e"
    by (simp add: va)
  have a4: "validate_attr ev t0 e ''participation'' = validate_participation t0 e"
    by (simp add: va)
  have a5: "validate_attr ev t0 e ''reaction'' = validate_reaction t0 e"
    by (simp add: va)
  have r5: "validate_reaction t0 e =
              (if v \<in> set [VStr ''like''] then Inr () else Inl (InvalidField ''reaction''))"
    by (simp add: validate_reaction_def not_in_valid_values_list[OF r rv])
  have "\<exists>f. validate ev t0 e = Inl (InvalidField f)" if "v \<notin> set [VStr ''like'']"
    using that
    by (auto simp: validate_def dir a0 a1 a2 a3 a4 a5 r5 validate_guid_def g validate_handle_def hh
        validate_participation_def not_in_valid_values_list[OF q pv])
  with a5 r5 show ?thesis by simp
qed

lemma dir_Relationship:
  "sort (remdups (filter (\<lambda>attr. \<not> startswith attr ''_'')
     (map fst (class_data t0 Relationship) @ class_methods Relationship @ class_props Relationship))) =
   [''created_at'', ''handle'', ''relationship'', ''target_handle'', ''validate'',
      ''validate_handle'', ''validate_relationship'', ''validate_target_handle'']"
  by (simp add: class_defs startswith_def)

lemma schema_Relationship:
  "schema_fields t0 Relationship =
     [''target_handle'', ''relationship'', ''created_at'', ''handle'']"
  by (simp add: schema_fields_def class_defs startswith_def)

lemma relationship_rule_Relationship:
  assumes c: "cls_of e = Relationship" and p: "plain t0 e"
    and hh: "get_field t0 e ''handle'' = Inr (VStr hs)"
    and r: "get_field t0 e ''relationship'' = Inr v"
  shows "validate_attr ev t0 e ''relationship'' =
           (if v \<in> set [VStr ''sharing'', VStr ''following'', VStr ''ignoring'', VStr ''blocking'']
            then Inr () else Inl (InvalidField ''relationship'')) \<and>
         (v \<notin> set [VStr ''sharing'', VStr ''following'', VStr ''ignoring'', VStr ''blocking''] \<longrightarrow>
            (\<exists>f. validate ev t0 e = Inl (InvalidField f)))"
proof -
  note ub = plain_unbound[OF p, unfolded c schema_Relationship]
  have rv: "get_field t0 e ''_relationship_valid_values'' =
              Inr (VList [VStr ''sharing'', VStr ''following'', VStr ''ignoring'', VStr ''blocking''])"
    by (rule get_field_class) (simp_all add: ub c class_data_def)
  have dir: "public_dir t0 e =
     [''created_at'', ''handle'', ''relationship'', ''target_handle'', ''validate'',
      ''validate_handle'', ''validate_relationship'', ''validate_target_handle'']"
    by (simp only: public_dir_plain[OF p] c dir_Relationship)
  note va = validate_attr_def attr_access_def startswith_def c class_defs ub map_add_def
    call_method_def
  have a1: "validate_attr ev t0 e ''created_at'' = Inr ()"
    by (simp add: va)
  have a3: "validate_attr ev t0 e ''handle'' = validate_handle ev t0 e"
    by (simp add: va)
  have a5: "validate_attr ev t0 e ''relationship'' = validate_relationship t0 e"
    by (simp add: va)
  have r5: "validate_relationship t0 e =
              (if v \<in> set [VStr ''sharing'', VStr ''following'', VStr ''ignoring'', VStr ''blocking'']
               then Inr () else Inl (InvalidField ''relationship''))"
    by (simp add: validate_relationship_def not_in_valid_values_list[OF r rv])
  have "\<exists>f. validate ev t0 e = Inl (InvalidField f)"
    if "v \<notin> set [VStr ''sharing'', VStr ''following'', VStr ''ignoring'', VStr ''blocking'']"
    using that
    by (auto simp: validate_def dir a1 a3 a5 r5 validate_handle_def hh)
  with a5 r5 show ?thesis by simp
qed

lemma dir_DiasporaRequest:
  "sort (remdups (filter (\<lambda>attr. \<not> startswith attr ''_'')
     (map fst (class_data t0 DiasporaRequest) @ class_methods DiasporaRequest @ class_props DiasporaRequest))) =
   [''created_at'', ''from_base'', ''handle'', ''relationship'', ''target_handle'',
      ''to_xml'', ''validate'', ''validate_handle'', ''validate_relationship'',
      ''validate_target_handle'']"
  by (simp add: class_defs startswith_def)

lemma schema_DiasporaRequest:
  "schema_fields t0 DiasporaRequest =
     [''target_handle'', ''relationship'', ''created_at'', ''handle'']"
  by (simp add: schema_fields_def class_defs startswith_def)

lemma relationship_rule_DiasporaRequest:
  assumes c: "cls_of e = DiasporaRequest" and p: "plain t0 e"
    and hh: "get_field t0 e ''handle'' = Inr (VStr hs)"
    and r: "get_field t0 e ''relationship'' = Inr v"
  shows "validate_attr ev t0 e ''relationship'' =
           (if v \<in> set [VStr ''sharing'', VStr ''following'', VStr ''ignoring'', VStr ''blocking'']
            then Inr () else Inl (InvalidField ''relationship'')) \<and>
         (v \<notin> set [VStr ''sharing'', VStr ''following'', VStr ''ignoring'', VStr ''blocking''] \<longrightarrow>
            (\<exists>f. validate ev t0 e = Inl (InvalidField f)))"
proof -
  note ub = plain_unbound[OF p, unfolded c schema_DiasporaRequest]
  have rv: "get_field t0 e ''_relationship_valid_values'' =
              Inr (VList [VStr ''sharing'', VStr ''following'', VStr ''ignoring'', VStr ''blocking''])"
    by (rule get_field_class) (simp_all add: ub c class_data_def)
  have dir: "public_dir t0 e =
     [''created_at'', ''from_base'', ''handle'', ''relationship'', ''target_handle'',
      ''to_xml'', ''validate'', ''validate_handle'', ''validate_relationship'',
      ''validate_target_handle'']"
    by (simp only: public_dir_plain[OF p] c dir_DiasporaRequest)
  note va = validate_attr_def attr_access_def startswith_def c class_defs ub map_add_def
    call_method_def
  have a0: "validate_attr ev t0 e ''from_base'' = Inr ()"
    by (simp_all add: va)
  have a1: "validate_attr ev t0 e ''created_at'' = Inr ()"
    by (simp add: va)
  have a3: "validate_attr ev t0 e ''handle'' = validate_handle ev t0 e"
    by (simp add: va)
  have a5: "validate_attr ev t0 e ''relationship'' = validate_relationship t0 e"
    by (simp add: va)
  have r5: "validate_relationship t0 e =
              (if v \<in> set [VStr ''sharing'', VStr ''following'', VStr ''ignoring'', VStr ''blocking'']
               then Inr () else Inl (InvalidField ''relationship''))"
    by (simp add: validate_relationship_def not_in_valid_values_list[OF r rv])
  have "\<exists>f. validate ev t0 e = Inl (InvalidField f)"
    if "v \<notin> set [VStr ''sharing'', VStr ''following'', VStr ''ignoring'', VStr ''blocking'']"
    using that
    by (auto simp: validate_def dir a0 a1 a3 a5 r5 validate_handle_def hh)
  with a5 r5 show ?thesis by simp
qed

text \<open>Construction from field values yields a plain instance that reads as supplied.\<close>

lemma public_data_safe:
  assumes "key \<in> fst ` set (class_data t0 c)" and "\<not> startswith key ''_''"
  shows "safe_key c' key \<and> key \<noteq> ''_required''"
proof -
  from assms(2) have "\<not> startswith key ''__''" using dunder_private by blast
  moreover from assms(1) self_not_data[of t0 c] have "key \<noteq> ''self''" by blast
  moreover from assms(1) tags_not_data[of t0 c] have "key \<noteq> ''tags''" by blast
  then have "key \<notin> set (class_props c')" by (rule not_prop)
  moreover from assms(2) have "key \<noteq> ''_required''" by (auto simp: startswith_def)
  ultimately show ?thesis by (simp add: safe_key_def)
qed

lemma construct_fields:
  assumes "BaseEntity \<in> set (mro c)"
    and "fst ` set kwargs \<subseteq> set (schema_fields t0 c)" and "distinct (map fst kwargs)"
  shows "\<exists>e. construct t0 c kwargs = Inr e \<and> cls_of e = c \<and> plain t0 e \<and>
           (\<forall>(key, v) \<in> set kwargs. get_field t0 e key = Inr v) \<and>
           (\<forall>name. name \<notin> fst ` set kwargs \<and> name \<noteq> ''_required'' \<longrightarrow>
              map_of (inst e) name = None)"
proof -
  have safe: "\<forall>key \<in> fst ` set kwargs. safe_key c key \<and> key \<noteq> ''_required''"
    using assms(2) schema_fields_data[of t0 c] schema_fields_public[of _ t0 c]
      public_data_safe[of _ t0 c c] by blast
  from construct_bindings[OF assms(1) safe assms(3), of t0] obtain e
    where e: "construct t0 c kwargs = Inr e" and cls: "cls_of e = c"
      and bound: "\<forall>(key, v) \<in> set kwargs. key \<in> set (attr_names t0 c) \<longrightarrow> map_of (inst e) key = Some v"
      and unbound: "\<forall>name. name \<notin> fst ` set kwargs \<and> name \<noteq> ''_required'' \<longrightarrow> map_of (inst e) name = None"
    by blast
  have "name \<in> fst ` set kwargs \<or> name = ''_required''" if "name \<in> fst ` set (inst e)" for name
    using that unbound by (auto simp: map_of_eq_None_iff)
  then have "fst ` set (inst e) \<subseteq> fst ` set kwargs \<union> {''_required''}" by blast
  with assms(2) cls have pl: "plain t0 e" unfolding plain_def by blast
  have rd: "get_field t0 e key = Inr v" if mem: "(key, v) \<in> set kwargs" for key v
  proof -
    from mem assms(2) have k: "key \<in> set (schema_fields t0 c)" by force
    with schema_fields_data[of t0 c] have d: "key \<in> fst ` set (class_data t0 c)" by blast
    then have "key \<in> set (attr_names t0 c)" by (auto simp: attr_names_def)
    with bound mem have "map_of (inst e) key = Some v" by blast
    moreover from d tags_not_data[of t0 c] have "key \<noteq> ''tags''" by blast
    ultimately show ?thesis by (simp add: get_field_inst)
  qed
  from e cls pl rd unbound show ?thesis by blast
qed

section \<open>The completeness check\<close>

text \<open>
  No validator raises the error of the final check, and on an instance built from field values
  every required name is the name of a public attribute: the check at the end of
  \<open>validate\<close> cannot fail there, whatever values the fields hold.
\<close>

lemma get_field_no_missing: "get_field t0 e name \<noteq> Inl (MissingRequired r)"
  by (simp add: get_field_def split: option.splits)

lemma py_in_no_missing: "py_in v c \<noteq> Inl (MissingRequired r)"
  by (cases c) simp_all

lemma is_valid_no_missing: "is_valid ev v \<noteq> Inl (MissingRequired r)"
  by (cases v) simp_all

lemma py_len_no_missing: "py_len v \<noteq> Inl (MissingRequired r)"
  by (cases v) simp_all

lemma not_in_valid_values_no_missing:
  "not_in_valid_values t0 e f valid \<noteq> Inl (MissingRequired r)"
proof (cases "get_field t0 e f")
  case (Inl err)
  with get_field_no_missing[of t0 e f r] show ?thesis by (simp add: not_in_valid_values_def)
next
  case v: (Inr v)
  show ?thesis
  proof (cases "get_field t0 e valid")
    case (Inl err)
    with v get_field_no_missing[of t0 e valid r] show ?thesis
      by (simp add: not_in_valid_values_def)
  next
    case c: (Inr c)
    show ?thesis
    proof (cases "py_in v c")
      case (Inl err)
      with v c py_in_no_missing[of v c r] show ?thesis by (simp add: not_in_valid_values_def)
    next
      case (Inr b)
      with v c show ?thesis by (cases b) (simp_all add: not_in_valid_values_def)
    qed
  qed
qed

lemma validate_guid_no_missing: "validate_guid t0 e \<noteq> Inl (MissingRequired r)"
proof (cases "get_field t0 e ''guid''")
  case (Inl err)
  with get_field_no_missing[of t0 e "''guid''" r] show ?thesis by (simp add: validate_guid_def)
next
  case (Inr g)
  then show ?thesis using py_len_no_missing[of g r]
    by (cases "py_len g") (simp_all add: validate_guid_def)
qed

lemma email_rule_no_missing:
  "(case is_valid ev v of Inl err \<Rightarrow> Inl err
     | Inr ok \<Rightarrow> if \<not> ok then Inl (InvalidField f) else Inr ()) \<noteq> Inl (MissingRequired r)"
  using is_valid_no_missing[of ev v r] by (cases "is_valid ev v") simp_all

lemma validate_handle_no_missing: "validate_handle ev t0 e \<noteq> Inl (MissingRequired r)"
  using get_field_no_missing[of t0 e "''handle''" r] email_rule_no_missing
  by (cases "get_field t0 e ''handle''") (simp_all add: validate_handle_def)

lemma validate_target_handle_no_missing:
  "validate_target_handle ev t0 e \<noteq> Inl (MissingRequired r)"
  using get_field_no_missing[of t0 e "''target_handle''" r] email_rule_no_missing
  by (cases "get_field t0 e ''target_handle''") (simp_all add: validate_target_handle_def)

lemma validate_email_no_missing: "validate_email ev t0 e \<noteq> Inl (MissingRequired r)"
  using get_field_no_missing[of t0 e "''email''" r] email_rule_no_missing
  by (cases "get_field t0 e ''email''") (simp_all add: validate_email_def)

lemma call_method_no_missing: "call_method ev t0 e m \<noteq> Inl (MissingRequired r)"
  by (simp add: call_method_def validate_guid_no_missing validate_handle_no_missing
      validate_target_handle_no_missing validate_email_no_missing validate_participation_def
      validate_reaction_def validate_relationship_def not_in_valid_values_no_missing)

lemma tags_no_missing: "tags t0 e \<noteq> Inl (MissingRequired r)"
proof (cases "get_field t0 e ''raw_content''")
  case (Inl err)
  with get_field_no_missing[of t0 e "''raw_content''" r] show ?thesis by (simp add: tags_def)
next
  case (Inr v)
  then show ?thesis by (cases v) (simp_all add: tags_def)
qed

lemma attr_access_no_missing: "attr_access t0 e attr \<noteq> Inl (MissingRequired r)"
  using tags_no_missing[of t0 e r]
  by (cases "tags t0 e") (simp_all add: attr_access_def)

lemma lookup_rule_no_missing:
  assumes "x \<noteq> Inl (MissingRequired r)"
  shows "(case m of
            Some v \<Rightarrow> if truthy v then Inl TypeError else Inr ()
          | None \<Rightarrow> if b then x else Inr ()) \<noteq> Inl (MissingRequired r)"
  using assms by (cases m) simp_all

lemma validate_attr_no_missing: "validate_attr ev t0 e attr \<noteq> Inl (MissingRequired r)"
proof (cases "attr_access t0 e attr")
  case (Inl err)
  with attr_access_no_missing[of t0 e attr r] show ?thesis
    unfolding validate_attr_def by (simp only: sum.case) simp
next
  case (Inr u)
  show ?thesis
    unfolding validate_attr_def Inr sum.case
    by (rule lookup_rule_no_missing[OF call_method_no_missing])
qed

lemma validate_attrs_no_missing: "validate_attrs ev t0 e attrs \<noteq> Inl (MissingRequired r)"
proof (induction attrs)
  case Nil
  then show ?case by simp
next
  case (Cons a attrs)
  then show ?case using validate_attr_no_missing[of ev t0 e a r]
    by (cases "validate_attr ev t0 e a") simp_all
qed

lemma required_names_public:
  "list_all
     (\<lambda>c. spec_required c \<subseteq>
            set (filter (\<lambda>attr. \<not> startswith attr ''_'')
              (map fst (class_data t0 c) @ class_methods c @ class_props c)))
     (entity_kinds @ protocol_kinds)"
  by (simp add: entity_kinds_def protocol_kinds_def spec_required_def class_defs startswith_def)

lemma required_check_never_fails:
  assumes "c \<in> set (entity_kinds @ protocol_kinds)"
    and "fst ` set kwargs \<subseteq> set (schema_fields t0 c)" and "distinct (map fst kwargs)"
    and "construct t0 c kwargs = Inr e"
  shows "validate ev t0 e \<noteq> Inl (MissingRequired r)"
proof -
  from assms(1) have b: "BaseEntity \<in> set (mro c)"
    by (auto simp: entity_kinds_def protocol_kinds_def)
  from construct_fields[OF b assms(2,3)] assms(4) have cls: "cls_of e = c" and pl: "plain t0 e"
    by auto
  have nr: "''_required'' \<notin> fst ` set kwargs"
    using assms(2) schema_fields_public[of "''_required''" t0 c] by (auto simp: startswith_def)
  from construct_base[OF assms(4) b] obtain e1
    where e1: "base_init t0 \<lparr>cls_of = c, inst = []\<rparr> kwargs = Inr e1" ..
  note f = base_init_facts[OF e1]
  from construct_shape[OF assms(4) b e1 f(1) f(2)[OF nr]] assms(1)
  obtain xs where xs: "map_of (inst e) ''_required'' = Some (VList xs)"
    and sx: "set xs = VStr ` spec_required c" by blast
  from xs have g: "get_field t0 e ''_required'' = Inr (VList xs)" by (simp add: get_field_inst)
  from sx have h: "list_all hashable xs" by (auto simp: list_all_iff)
  from required_names_public[of t0] assms(1)
  have "spec_required c \<subseteq>
          set (filter (\<lambda>attr. \<not> startswith attr ''_'')
            (map fst (class_data t0 c) @ class_methods c @ class_props c))"
    unfolding list_all_iff by blast
  then have "spec_required c \<subseteq> set (public_dir t0 e)"
    by (simp only: public_dir_plain[OF pl] cls set_sort set_remdups)
  with sx have sub: "set xs \<subseteq> set (map VStr (public_dir t0 e))" by auto
  show ?thesis
  proof (cases "validate_attrs ev t0 e (public_dir t0 e)")
    case (Inl err)
    with validate_attrs_no_missing[of ev t0 e "public_dir t0 e" r] show ?thesis
      by (simp add: validate_def)
  next
    case (Inr u)
    with g h sub show ?thesis by (simp add: validate_def py_set_def)
  qed
qed

section \<open>The serialiser\<close>

lemma leaf_reads:
  assumes "list_all (\<lambda>name. name \<in> fst ` set (class_data t0 (cls_of e))) names"
  shows "list_all (\<lambda>name. \<exists>v. get_field t0 e name = Inr v) names"
  using assms get_field_declared[of _ t0 e] by (induction names) auto

lemma hash_tags_strings: "hash_tags (map VStr ts) = Inr (map ((@) ''#'') ts)"
  by (induction ts) simp_all

section \<open>Claims\<close>

text \<open>
  C1. The claim: validating an instance in which a required field has no present value fails
  with \<open>MissingRequired\<close>, naming the field. The code compares the required names with the
  names of all public attributes, not with the attributes that hold a value, so the check
  passes whatever the values are (lemma \<open>required_check_never_fails\<close>), against the
  docstring of \<^verbatim>\<open>validate\<close>, which has it make sure that all required attributes have a
  value. Here a \<^verbatim>\<open>Post\<close> is built from a handle alone, one the
  e-mail validator accepts: \<^verbatim>\<open>guid\<close> is required and still the empty string, and
  \<open>validate\<close> returns without an error.
\<close>

theorem validate_passes_without_guid:
  "next_do (construct t0 Post [(''handle'', VStr ''alice@example.org'')])
     (\<lambda>e. next_do (get_field t0 e ''guid'')
       (\<lambda>g. next_do (get_field t0 e ''_required'')
         (\<lambda>r. next_do (validate (\<lambda>h. h = ''alice@example.org'') t0 e)
           (\<lambda>u. Inr (g, r))))) =
   Inr (VStr '''',
        VList [VStr ''created_at'', VStr ''handle'', VStr ''guid'', VStr ''raw_content''])"
  by (simp add: ctor_defs class_defs next_do_def validate_def public_dir_def validate_attr_def
      call_method_def validate_guid_def validate_handle_def py_set_def)

text \<open>
  C3. A protocol \<^verbatim>\<open>Post\<close> with guid \<^verbatim>\<open>a0a0a0a0a0a0a0a0\<close>, handle
  \<^verbatim>\<open>alice@alice.example.org\<close>, raw content \<^verbatim>\<open>((status message))\<close> and timestamp
  2011-07-20 01:36:07 serialises to a \<^verbatim>\<open>status_message\<close> element whose children are, in
  this order, \<^verbatim>\<open>raw_message\<close>, \<^verbatim>\<open>guid\<close>, \<^verbatim>\<open>diaspora_handle\<close>, \<^verbatim>\<open>public\<close> and
  \<^verbatim>\<open>created_at\<close>; the \<^verbatim>\<open>public\<close> element holds \<^verbatim>\<open>false\<close> when the flag is false
  and \<^verbatim>\<open>true\<close> when it is true.
\<close>

theorem post_to_xml_elements:
  "next_do
     (construct t0 DiasporaPost
        [(''guid'', VStr ''a0a0a0a0a0a0a0a0''),
         (''handle'', VStr ''alice@alice.example.org''),
         (''public'', VBool b),
         (''raw_content'', VStr ''((status message))''),
         (''created_at'', VDateTime (DateTime 2011 7 20 1 36 7))])
     (to_xml t0) =
   Inr (Element ''status_message'' VNone
     [Element ''raw_message'' (VStr ''((status message))'') [],
      Element ''guid'' (VStr ''a0a0a0a0a0a0a0a0'') [],
      Element ''diaspora_handle'' (VStr ''alice@alice.example.org'') [],
      Element ''public'' (VStr (if b then ''true'' else ''false'')) [],
      Element ''created_at'' (VStr ''2011-07-20 01:36:07 UTC'') []])"
  by (simp add: ctor_defs class_defs next_do_def to_xml_def DiasporaPost_to_xml_def
      true_false_def digit_def pad2_def pad4_def)

text \<open>
  C9. The claim: an instance built without a creation time has \<^verbatim>\<open>created_at\<close> set to the
  time of its construction. In the code the default is a class attribute, computed once when
  the class statement runs: an instance of any of the six kinds built without
  \<^verbatim>\<open>created_at\<close> reads \<open>t0\<close>, the time of the import, however much later it is built.
\<close>

theorem created_at_default_is_import_time:
  "map (\<lambda>c. next_do (construct t0 c []) (\<lambda>e. get_field t0 e ''created_at''))
     [Post, Image, Comment, Reaction, Relationship, Profile] =
   [Inr (VDateTime t0), Inr (VDateTime t0), Inr (VDateTime t0), Inr (VDateTime t0),
    Inr (VDateTime t0), Inr (VDateTime t0)]"
  by (simp add: ctor_defs class_defs next_do_def)

text \<open>The required-field sets the composition table of the spec gives the six kinds.\<close>

lemma spec_required_table:
  "map spec_required entity_kinds =
     [{''raw_content'', ''guid'', ''handle'', ''created_at''},
      {''guid'', ''handle'', ''created_at'', ''remote_path'', ''remote_name''},
      {''raw_content'', ''guid'', ''target_guid'', ''participation'', ''created_at'', ''handle''},
      {''guid'', ''target_guid'', ''participation'', ''created_at'', ''handle'', ''reaction''},
      {''created_at'', ''handle'', ''relationship'', ''target_handle''},
      {''created_at'', ''handle'', ''raw_content''}]"
  by (auto simp: entity_kinds_def spec_required_def)

text \<open>
  C2. For every entity kind (and every protocol form), the required-field list of a constructed
  instance holds exactly the requirements of the units the kind is composed of (\<^verbatim>\<open>guid\<close>
  from Identity, \<^verbatim>\<open>handle\<close> from Authorship, \<^verbatim>\<open>created_at\<close> from Timestamp,
  \<^verbatim>\<open>raw_content\<close> from TextBody, \<^verbatim>\<open>target_guid\<close> and \<^verbatim>\<open>participation\<close> from
  ParticipationRef, \<^verbatim>\<open>relationship\<close> and \<^verbatim>\<open>target_handle\<close> from RelationshipRef) and the
  kind's own additions, and for \<^verbatim>\<open>Profile\<close> all of these but \<^verbatim>\<open>guid\<close>. The instance is
  built from any keyword arguments that leave the bookkeeping list \<^verbatim>\<open>_required\<close> itself
  alone.
\<close>

theorem required_is_union_of_units:
  assumes "c \<in> set (entity_kinds @ protocol_kinds)"
    and "''_required'' \<notin> fst ` set kwargs"
    and "construct t0 c kwargs = Inr e"
  shows "\<exists>xs. get_field t0 e ''_required'' = Inr (VList xs) \<and> set xs = VStr ` spec_required c"
proof -
  from assms(1) have b: "BaseEntity \<in> set (mro c)"
    by (auto simp: entity_kinds_def protocol_kinds_def)
  from construct_base[OF assms(3) b] obtain e1
    where e1: "base_init t0 \<lparr>cls_of = c, inst = []\<rparr> kwargs = Inr e1" ..
  note f = base_init_facts[OF e1]
  from construct_shape[OF assms(3) b e1 f(1) f(2)[OF assms(2)]] assms(1)
  obtain xs where "map_of (inst e) ''_required'' = Some (VList xs)"
    and "set xs = VStr ` spec_required c" by blast
  then show ?thesis by (auto simp: get_field_inst)
qed

theorem required_is_union_of_units_witness:
  "Profile \<in> set (entity_kinds @ protocol_kinds) \<and>
   ''_required'' \<notin> fst ` set [(''handle'', VStr ''bob@example.com'')] \<and>
   construct (DateTime 2016 1 1 0 0 0) Profile [(''handle'', VStr ''bob@example.com'')] =
     Inr \<lparr>cls_of = Profile,
          inst = [(''_required'', VList [VStr ''raw_content'', VStr ''handle'', VStr ''created_at'']),
                  (''handle'', VStr ''bob@example.com'')]\<rparr> \<and>
   (\<exists>xs. get_field (DateTime 2016 1 1 0 0 0)
           \<lparr>cls_of = Profile,
            inst = [(''_required'', VList [VStr ''raw_content'', VStr ''handle'', VStr ''created_at'']),
                    (''handle'', VStr ''bob@example.com'')]\<rparr> ''_required'' = Inr (VList xs) \<and>
         set xs = VStr ` spec_required Profile)"
proof -
  have h1: "Profile \<in> set (entity_kinds @ protocol_kinds)" by (simp add: entity_kinds_def)
  have h2: "''_required'' \<notin> fst ` set [(''handle'', VStr ''bob@example.com'')]" by simp
  have h3: "construct (DateTime 2016 1 1 0 0 0) Profile [(''handle'', VStr ''bob@example.com'')] =
     Inr \<lparr>cls_of = Profile,
          inst = [(''_required'', VList [VStr ''raw_content'', VStr ''handle'', VStr ''created_at'']),
                  (''handle'', VStr ''bob@example.com'')]\<rparr>"
    by (simp add: ctor_defs class_defs)
  from required_is_union_of_units[OF h1 h2 h3] h1 h2 h3 show ?thesis by blast
qed

text \<open>
  C10. The claim: construction with arbitrary keyword arguments never raises, a keyword that
  names an attribute sets it, and a keyword that names none is ignored. As stated it fails:
  \<^verbatim>\<open>tags\<close> is an attribute of every kind with a text body, a property without a setter,
  and \<^verbatim>\<open>Post(tags=...)\<close> raises an \<^verbatim>\<open>AttributeError\<close>.
\<close>

theorem constructor_keywords_counterexample:
  "construct (DateTime 2016 1 1 0 0 0) Post [(''tags'', VList [VStr ''federation''])] =
     Inl (AttributeError ''tags'')"
  by (simp add: ctor_defs class_defs)

text \<open>
  C10, amended. For every class that derives from \<^verbatim>\<open>BaseEntity\<close>, construction from
  keyword arguments none of which is named \<^verbatim>\<open>tags\<close> (on a class with that property),
  \<^verbatim>\<open>self\<close>, \<^verbatim>\<open>_required\<close> or with two leading underscores returns an instance; every
  keyword that names an attribute of the class is bound in the instance to the supplied value;
  and the instance is the one built from the matching keywords alone, so a keyword that names
  no attribute is ignored.
\<close>

theorem constructor_keywords:
  assumes "BaseEntity \<in> set (mro c)"
    and "\<forall>key \<in> fst ` set kwargs. safe_key c key \<and> key \<noteq> ''_required''"
    and "distinct (map fst kwargs)"
  shows "\<exists>e. construct t0 c kwargs = Inr e \<and>
           (\<forall>(key, v) \<in> set kwargs.
              key \<in> set (attr_names t0 c) \<longrightarrow> map_of (inst e) key = Some v) \<and>
           construct t0 c (filter (\<lambda>kv. fst kv \<in> set (attr_names t0 c)) kwargs) = Inr e"
  using construct_bindings[OF assms, of t0] by blast

theorem constructor_keywords_witness:
  "BaseEntity \<in> set (mro Post) \<and>
   list_all (\<lambda>key. safe_key Post key \<and> key \<noteq> ''_required'') [''guid'', ''colour''] \<and>
   distinct (map fst [(''guid'', VStr ''0123456789abcdef''), (''colour'', VInt 1)]) \<and>
   construct (DateTime 2016 1 1 0 0 0) Post
       [(''guid'', VStr ''0123456789abcdef''), (''colour'', VInt 1)] =
     Inr \<lparr>cls_of = Post,
          inst = [(''_required'',
                     VList [VStr ''created_at'', VStr ''handle'', VStr ''guid'', VStr ''raw_content'']),
                  (''guid'', VStr ''0123456789abcdef'')]\<rparr> \<and>
   construct (DateTime 2016 1 1 0 0 0) Post [(''guid'', VStr ''0123456789abcdef'')] =
     Inr \<lparr>cls_of = Post,
          inst = [(''_required'',
                     VList [VStr ''created_at'', VStr ''handle'', VStr ''guid'', VStr ''raw_content'']),
                  (''guid'', VStr ''0123456789abcdef'')]\<rparr>"
proof -
  let ?kw = "[(''guid'', VStr ''0123456789abcdef''), (''colour'', VInt 1)]"
  let ?T = "DateTime 2016 1 1 0 0 0"
  have h1: "BaseEntity \<in> set (mro Post)" by simp
  have h2: "\<forall>key \<in> fst ` set ?kw. safe_key Post key \<and> key \<noteq> ''_required''"
    by (simp add: safe_key_def startswith_def class_props_def)
  have h3: "distinct (map fst ?kw)" by simp
  have f: "filter (\<lambda>kv. fst kv \<in> set (attr_names ?T Post)) ?kw = [(''guid'', VStr ''0123456789abcdef'')]"
    by (simp add: attr_names_def class_defs)
  have c: "construct ?T Post ?kw =
     Inr \<lparr>cls_of = Post,
          inst = [(''_required'',
                     VList [VStr ''created_at'', VStr ''handle'', VStr ''guid'', VStr ''raw_content'']),
                  (''guid'', VStr ''0123456789abcdef'')]\<rparr>"
    by (simp add: ctor_defs class_defs)
  from constructor_keywords[OF h1 h2 h3, of ?T] f c h1 h2 h3 show ?thesis by auto
qed

text \<open>
  C5. For every entity composed with the Identity unit, the identifier rule fails with
  \<open>InvalidField\<close> exactly when the guid is non-empty and shorter than 16 characters; a guid
  of at least 16 characters passes and so does the empty guid. The rule is the one
  \<open>validate\<close> runs for the attribute \<^verbatim>\<open>guid\<close>.
\<close>

theorem guid_rule:
  assumes "GUIDMixin \<in> set (mro (cls_of e))"
    and "''validate_guid'' \<notin> fst ` set (inst e)"
    and "get_field t0 e ''guid'' = Inr (VStr g)"
  shows "validate_guid t0 e =
           (if g \<noteq> [] \<and> length g < 16 then Inl (InvalidField ''guid'') else Inr ()) \<and>
         validate_attr ev t0 e ''guid'' = validate_guid t0 e"
  using assms(3) by (simp add: validator_lookup[OF assms(1,2)] validate_guid_def)

theorem guid_rule_witness:
  "GUIDMixin \<in> set (mro Comment) \<and>
   ''validate_guid'' \<notin> fst ` set [(''guid'', VStr ''a0a0a0a0a0a0a0a'')] \<and>
   get_field (DateTime 2016 1 1 0 0 0)
     \<lparr>cls_of = Comment, inst = [(''guid'', VStr ''a0a0a0a0a0a0a0a'')]\<rparr> ''guid'' =
     Inr (VStr ''a0a0a0a0a0a0a0a'') \<and>
   validate_attr (\<lambda>h. True) (DateTime 2016 1 1 0 0 0)
     \<lparr>cls_of = Comment, inst = [(''guid'', VStr ''a0a0a0a0a0a0a0a'')]\<rparr> ''guid'' =
     Inl (InvalidField ''guid'')"
proof -
  let ?T = "DateTime 2016 1 1 0 0 0"
  let ?x = "\<lparr>cls_of = Comment, inst = [(''guid'', VStr ''a0a0a0a0a0a0a0a'')]\<rparr>"
  have h1: "GUIDMixin \<in> set (mro (cls_of ?x))" by simp
  have h2: "''validate_guid'' \<notin> fst ` set (inst ?x)" by simp
  have h3: "get_field ?T ?x ''guid'' = Inr (VStr ''a0a0a0a0a0a0a0a'')"
    by (simp add: get_field_def class_defs)
  from guid_rule[OF h1 h2 h3, of "\<lambda>h. True"] h1 h2 h3 show ?thesis by simp
qed

text \<open>
  C6. The claim: the tags are the \<^verbatim>\<open>#word\<close> tokens of the text with the \<^verbatim>\<open>#\<close>
  prefix removed. As stated it fails: the code removes every \<^verbatim>\<open>#\<close> at either end of a
  word (\<^verbatim>\<open>word.strip("#")\<close>), not the one-character prefix. The word \<^verbatim>\<open>##a\<close> gives the
  tag \<^verbatim>\<open>a\<close> and not \<^verbatim>\<open>#a\<close>, the word \<^verbatim>\<open>#b#\<close> gives \<^verbatim>\<open>b\<close> and not \<^verbatim>\<open>b#\<close>, and
  the heading \<^verbatim>\<open>## Title #tag\<close> gives the empty string as a tag beside \<^verbatim>\<open>tag\<close>.
\<close>

theorem tags_prefix_counterexample:
  "tags (DateTime 2016 1 1 0 0 0) \<lparr>cls_of = Post, inst = [(''raw_content'', VStr ''##a'')]\<rparr> =
     Inr {''a''} \<and>
   tags_by_prefix ''##a'' = {''#a''} \<and>
   tags (DateTime 2016 1 1 0 0 0) \<lparr>cls_of = Post, inst = [(''raw_content'', VStr ''#b#'')]\<rparr> =
     Inr {''b''} \<and>
   tags_by_prefix ''#b#'' = {''b#''} \<and>
   tags (DateTime 2016 1 1 0 0 0)
     \<lparr>cls_of = Post, inst = [(''raw_content'', VStr ''## Title #tag'')]\<rparr> =
     Inr {'''', ''tag''} \<and>
   tags_by_prefix ''## Title #tag'' = {''#'', ''tag''}"
  by (simp add: tags_def get_field_def class_defs split_ws_def is_space_def startswith_def
      strip_def tags_by_prefix_def)

text \<open>
  C6, amended. For every entity whose text body is a string, the tags are the words of the
  text (its maximal runs without whitespace) that start with \<^verbatim>\<open>#\<close>, each with every
  leading and every trailing \<^verbatim>\<open>#\<close> removed: a word is a run of \<^verbatim>\<open>#\<close>, what
  \<^verbatim>\<open>strip("#")\<close> leaves of it, and a run of \<^verbatim>\<open>#\<close>, and what is left, unless empty,
  neither begins nor ends with \<^verbatim>\<open>#\<close>. In a text whose words starting with \<^verbatim>\<open>#\<close> all
  have the shape \<^verbatim>\<open>#word\<close>, the tags are those words without their first character, as
  the claim has it. The text \<^verbatim>\<open>hello #federation #socialfederation\<close> yields
  \<^verbatim>\<open>federation\<close> and \<^verbatim>\<open>socialfederation\<close>, and the empty text yields the empty set;
  both are instances, spelled out after the theorem.
\<close>

theorem tags_strip_hashes:
  assumes "get_field t0 e ''raw_content'' = Inr (VStr s)"
  shows "tags t0 e =
           Inr ((\<lambda>w. strip w ''#'') ` {w \<in> set (split_ws s). startswith w ''#''}) \<and>
         (\<forall>w \<in> set (split_ws s).
            (\<exists>m n. w = replicate m CHR ''#'' @ strip w ''#'' @ replicate n CHR ''#'') \<and>
            (strip w ''#'' \<noteq> [] \<longrightarrow>
               hd (strip w ''#'') \<noteq> CHR ''#'' \<and> last (strip w ''#'') \<noteq> CHR ''#'')) \<and>
         ((\<forall>w \<in> set (split_ws s). startswith w ''#'' \<longrightarrow> hash_word w) \<longrightarrow>
            tags t0 e = Inr (tags_by_prefix s))"
proof -
  have e: "split_ws [] = []" by (simp add: split_ws_def)
  have t: "tags t0 e = Inr ((\<lambda>w. strip w ''#'') ` {w \<in> set (split_ws s). startswith w ''#''})"
    using assms e by (auto simp: tags_def)
  have p: "tags t0 e = Inr (tags_by_prefix s)"
    if h: "\<forall>w \<in> set (split_ws s). startswith w ''#'' \<longrightarrow> hash_word w"
  proof -
    have "(\<lambda>w. strip w ''#'') ` {w \<in> set (split_ws s). startswith w ''#''} =
          tl ` {w \<in> set (split_ws s). startswith w ''#''}"
      using h by (intro image_cong) (auto simp: strip_hash_word)
    also have "\<dots> = tags_by_prefix s" by (simp add: tags_by_prefix_def)
    finally show ?thesis using t by simp
  qed
  show ?thesis
  proof (intro conjI ballI impI)
    show "tags t0 e = Inr ((\<lambda>w. strip w ''#'') ` {w \<in> set (split_ws s). startswith w ''#''})"
      by (rule t)
  next
    fix w
    show "\<exists>m n. w = replicate m CHR ''#'' @ strip w ''#'' @ replicate n CHR ''#''"
      by (rule strip_shape)
  next
    fix w
    assume "strip w ''#'' \<noteq> []"
    then show "hd (strip w ''#'') \<noteq> CHR ''#''" using strip_ends by blast
  next
    fix w
    assume "strip w ''#'' \<noteq> []"
    then show "last (strip w ''#'') \<noteq> CHR ''#''" using strip_ends by blast
  next
    assume "\<forall>w \<in> set (split_ws s). startswith w ''#'' \<longrightarrow> hash_word w"
    then show "tags t0 e = Inr (tags_by_prefix s)" by (rule p)
  qed
qed

theorem tags_strip_hashes_witness:
  "get_field (DateTime 2016 1 1 0 0 0)
     \<lparr>cls_of = Post, inst = [(''raw_content'', VStr ''hello #federation #socialfederation'')]\<rparr>
     ''raw_content'' = Inr (VStr ''hello #federation #socialfederation'') \<and>
   split_ws ''hello #federation #socialfederation'' =
     [''hello'', ''#federation'', ''#socialfederation''] \<and>
   list_all hash_word [''#federation'', ''#socialfederation''] \<and>
   strip ''#federation'' ''#'' = ''federation'' \<and>
   strip ''#socialfederation'' ''#'' = ''socialfederation'' \<and>
   tags (DateTime 2016 1 1 0 0 0)
     \<lparr>cls_of = Post, inst = [(''raw_content'', VStr ''hello #federation #socialfederation'')]\<rparr> =
     Inr {''federation'', ''socialfederation''} \<and>
   tags_by_prefix ''hello #federation #socialfederation'' =
     {''federation'', ''socialfederation''} \<and>
   tags (DateTime 2016 1 1 0 0 0) \<lparr>cls_of = Post, inst = [(''raw_content'', VStr [])]\<rparr> = Inr {}"
proof -
  let ?T = "DateTime 2016 1 1 0 0 0"
  let ?s = "''hello #federation #socialfederation''"
  let ?ws = "[''hello'', ''#federation'', ''#socialfederation'']"
  let ?x = "\<lparr>cls_of = Post, inst = [(''raw_content'', VStr ?s)]\<rparr>"
  let ?d = "\<lparr>cls_of = Post, inst = [(''raw_content'', VStr [])]\<rparr>"
  have "join '' '' ?ws = ?s" by simp
  moreover have "split_ws (join '' '' ?ws) = ?ws"
    by (rule split_ws_join) (simp add: is_space_def)
  ultimately have sp: "split_ws ?s = ?ws" by simp
  have sd: "split_ws [] = []" by (simp add: split_ws_def)
  have h1: "get_field ?T ?x ''raw_content'' = Inr (VStr ?s)"
    by (simp add: get_field_def class_defs)
  have h2: "\<forall>w \<in> set (split_ws ?s). startswith w ''#'' \<longrightarrow> hash_word w"
    by (simp only: sp) (simp add: startswith_def hash_word_def)
  have g1: "get_field ?T ?d ''raw_content'' = Inr (VStr [])"
    by (simp add: get_field_def class_defs)
  have p: "tags_by_prefix ?s = {''federation'', ''socialfederation''}"
    by (simp only: tags_by_prefix_def sp) (simp add: startswith_def)
  have st: "strip ''#federation'' ''#'' = ''federation''"
    "strip ''#socialfederation'' ''#'' = ''socialfederation''"
    by (simp_all add: strip_def)
  from tags_strip_hashes[OF h1] h2 have "tags ?T ?x = Inr (tags_by_prefix ?s)" by blast
  then have "tags ?T ?x = Inr {''federation'', ''socialfederation''}" by (simp only: p)
  moreover from tags_strip_hashes[OF g1] have "tags ?T ?d = Inr {}" by (simp add: sd)
  ultimately show ?thesis using h1 sp p st by (simp add: hash_word_def)
qed

text \<open>
  C8. Adapting a generic entity to its protocol form copies exactly the fields of the generic
  schema: the adaptation returns an instance of the protocol class, every schema field reads
  in it as it reads in the generic entity, no other name is bound in it (the bookkeeping list
  \<^verbatim>\<open>_required\<close> apart), and so \<^verbatim>\<open>author_signature\<close> of a protocol comment or like is
  its default, the empty string. No validator runs and nothing is raised, whatever values the
  generic entity holds.
\<close>

theorem from_base_copies_schema:
  assumes "protocol_form (cls_of e) = Some p"
  shows "\<exists>pe. from_base t0 p e = Inr pe \<and> cls_of pe = p \<and>
           (\<forall>f \<in> set (schema_fields t0 (cls_of e)). get_field t0 pe f = get_field t0 e f) \<and>
           (\<forall>name. name \<notin> set (schema_fields t0 (cls_of e)) \<and> name \<noteq> ''_required'' \<longrightarrow>
              map_of (inst pe) name = None) \<and>
           (p = DiasporaComment \<or> p = DiasporaLike \<longrightarrow>
              get_field t0 pe ''author_signature'' = Inr (VStr ''''))"
proof -
  let ?fs = "schema_fields t0 (cls_of e)"
  from read_fields_ok[OF schema_fields_data] obtain kvs
    where rd: "read_fields t0 e ?fs = Inr kvs" and keys: "map fst kvs = ?fs"
      and vals: "\<forall>(f, v) \<in> set kvs. get_field t0 e f = Inr v" by blast
  from keys have kset: "fst ` set kvs = set ?fs" by (metis set_map)
  have base: "BaseEntity \<in> set (mro p)" using assms by (rule protocol_form_base)
  have data: "set ?fs \<subseteq> fst ` set (class_data t0 p)"
    using schema_fields_data protocol_form_data[OF assms] by blast
  have safe: "\<forall>key \<in> fst ` set kvs. safe_key p key \<and> key \<noteq> ''_required''"
  proof
    fix key assume "key \<in> fst ` set kvs"
    with kset have k: "key \<in> set ?fs" by simp
    from schema_fields_public[OF k] have pub: "\<not> startswith key ''_''" .
    then have "\<not> startswith key ''__''" using dunder_private by blast
    moreover from k data self_not_data[of t0 p] have "key \<noteq> ''self''" by blast
    moreover from k data tags_not_data[of t0 p] have "key \<noteq> ''tags''" by blast
    then have "key \<notin> set (class_props p)" by (rule not_prop)
    moreover from pub have "key \<noteq> ''_required''" by (auto simp: startswith_def)
    ultimately show "safe_key p key \<and> key \<noteq> ''_required''" by (simp add: safe_key_def)
  qed
  have dist: "distinct (map fst kvs)" by (simp add: keys schema_fields_def)
  from construct_bindings[OF base safe dist, of t0] obtain pe
    where pe: "construct t0 p kvs = Inr pe" and cls: "cls_of pe = p"
      and bound: "\<forall>(key, v) \<in> set kvs. key \<in> set (attr_names t0 p) \<longrightarrow> map_of (inst pe) key = Some v"
      and unbound: "\<forall>name. name \<notin> fst ` set kvs \<and> name \<noteq> ''_required'' \<longrightarrow> map_of (inst pe) name = None"
    by blast
  have fb: "from_base t0 p e = Inr pe"
    using rd pe by (simp add: from_base_def get_base_attributes_def)
  have copied: "get_field t0 pe f = get_field t0 e f" if f: "f \<in> set ?fs" for f
  proof -
    from f kset obtain v where mem: "(f, v) \<in> set kvs" by force
    with vals have "get_field t0 e f = Inr v" by blast
    moreover from f data have "f \<in> set (attr_names t0 p)" by (auto simp: attr_names_def)
    with bound mem have "map_of (inst pe) f = Some v" by blast
    moreover from f data tags_not_data[of t0 p] have "f \<noteq> ''tags''" by blast
    ultimately show ?thesis by (simp add: get_field_inst)
  qed
  have sig: "get_field t0 pe ''author_signature'' = Inr (VStr '''')"
    if "p = DiasporaComment \<or> p = DiasporaLike"
  proof -
    from author_signature_default[OF assms, of t0] that kset
    have "''author_signature'' \<notin> fst ` set kvs"
      and "map_of (class_data t0 p) ''author_signature'' = Some (VStr '''')" by auto
    with unbound cls show ?thesis by (simp add: get_field_def not_prop)
  qed
  from fb cls copied unbound kset sig show ?thesis by auto
qed

theorem from_base_copies_schema_witness:
  "protocol_form Comment = Some DiasporaComment \<and>
   from_base (DateTime 2016 1 1 0 0 0) DiasporaComment
     \<lparr>cls_of = Comment,
      inst = [(''_required'', VList []), (''guid'', VStr ''a0a0a0a0a0a0a0a0''),
              (''raw_content'', VStr ''hi''), (''author_signature'', VStr ''sig'')]\<rparr> =
   Inr \<lparr>cls_of = DiasporaComment,
        inst = [(''_required'',
                   VList [VStr ''handle'', VStr ''created_at'', VStr ''target_guid'',
                          VStr ''participation'', VStr ''guid'', VStr ''raw_content'']),
                (''raw_content'', VStr ''hi''), (''guid'', VStr ''a0a0a0a0a0a0a0a0''),
                (''target_guid'', VStr ''''), (''participation'', VStr ''comment''),
                (''created_at'', VDateTime (DateTime 2016 1 1 0 0 0)),
                (''handle'', VStr '''')]\<rparr> \<and>
   get_field (DateTime 2016 1 1 0 0 0)
     \<lparr>cls_of = DiasporaComment,
      inst = [(''_required'',
                 VList [VStr ''handle'', VStr ''created_at'', VStr ''target_guid'',
                        VStr ''participation'', VStr ''guid'', VStr ''raw_content'']),
              (''raw_content'', VStr ''hi''), (''guid'', VStr ''a0a0a0a0a0a0a0a0''),
              (''target_guid'', VStr ''''), (''participation'', VStr ''comment''),
              (''created_at'', VDateTime (DateTime 2016 1 1 0 0 0)),
              (''handle'', VStr '''')]\<rparr> ''author_signature'' = Inr (VStr '''')"
proof -
  let ?T = "DateTime 2016 1 1 0 0 0"
  let ?x = "\<lparr>cls_of = Comment,
      inst = [(''_required'', VList []), (''guid'', VStr ''a0a0a0a0a0a0a0a0''),
              (''raw_content'', VStr ''hi''), (''author_signature'', VStr ''sig'')]\<rparr>"
  have h: "protocol_form (cls_of ?x) = Some DiasporaComment" by simp
  have ev: "from_base ?T DiasporaComment ?x =
   Inr \<lparr>cls_of = DiasporaComment,
        inst = [(''_required'',
                   VList [VStr ''handle'', VStr ''created_at'', VStr ''target_guid'',
                          VStr ''participation'', VStr ''guid'', VStr ''raw_content'']),
                (''raw_content'', VStr ''hi''), (''guid'', VStr ''a0a0a0a0a0a0a0a0''),
                (''target_guid'', VStr ''''), (''participation'', VStr ''comment''),
                (''created_at'', VDateTime (DateTime 2016 1 1 0 0 0)),
                (''handle'', VStr '''')]\<rparr>"
    by (simp add: from_base_def get_base_attributes_def schema_fields_def ctor_defs class_defs)
  from from_base_copies_schema[OF h, of ?T] ev show ?thesis by auto
qed

text \<open>
  C4. A \<^verbatim>\<open>Reaction\<close> (or its protocol form) built from field values with a reaction kind
  outside \<^verbatim>\<open>like\<close>, and a \<^verbatim>\<open>Relationship\<close> (or its protocol form) built with a
  relationship kind outside \<^verbatim>\<open>sharing\<close>, \<^verbatim>\<open>following\<close>, \<^verbatim>\<open>ignoring\<close>,
  \<^verbatim>\<open>blocking\<close>: the construction succeeds and the instance holds the value as supplied;
  \<open>validate\<close> then fails with \<open>InvalidField\<close>, and the rule of the field itself fails
  exactly when the value is outside the domain (it passes for \<^verbatim>\<open>like\<close>, for
  \<^verbatim>\<open>blocking\<close>). The guid and the handle, where supplied, are strings.
\<close>

theorem enumerated_kind_checked_at_validation:
  assumes "enum_field c = Some (f, allowed)"
    and "fst ` set kwargs \<subseteq> set (schema_fields t0 c)" and "distinct (map fst kwargs)"
    and "(f, v) \<in> set kwargs"
    and "\<forall>key x. (key, x) \<in> set kwargs \<and> (key = ''guid'' \<or> key = ''handle'') \<longrightarrow> is_str x"
  shows "\<exists>e. construct t0 c kwargs = Inr e \<and> get_field t0 e f = Inr v \<and>
           validate_attr ev t0 e f =
             (if v \<in> VStr ` set allowed then Inr () else Inl (InvalidField f)) \<and>
           (v \<notin> VStr ` set allowed \<longrightarrow> (\<exists>f'. validate ev t0 e = Inl (InvalidField f')))"
proof -
  from assms(1) have base: "BaseEntity \<in> set (mro c)" by (cases c) auto
  from construct_fields[OF base assms(2,3)] obtain e
    where e: "construct t0 c kwargs = Inr e" and cls: "cls_of e = c" and pl: "plain t0 e"
      and rd: "\<forall>(key, v) \<in> set kwargs. get_field t0 e key = Inr v"
      and unbound: "\<forall>name. name \<notin> fst ` set kwargs \<and> name \<noteq> ''_required'' \<longrightarrow> map_of (inst e) name = None"
    by blast
  from rd assms(4) have fv: "get_field t0 e f = Inr v" by blast
  have typed: "\<exists>s. get_field t0 e key = Inr (VStr s)"
    if k: "key = ''guid'' \<or> key = ''handle''"
      and d: "map_of (class_data t0 (cls_of e)) key = Some (VStr '''')" for key
  proof (cases "key \<in> fst ` set kwargs")
    case True
    then obtain x where x: "(key, x) \<in> set kwargs" by force
    with assms(5) k have "is_str x" by blast
    then obtain s where "x = VStr s" by (cases x) auto
    with rd x show ?thesis by blast
  next
    case False
    with unbound k have "map_of (inst e) key = None" by auto
    with d k show ?thesis using get_field_class[of e key t0] by auto
  qed
  have cc: "c = Reaction \<or> c = DiasporaLike \<or> c = Relationship \<or> c = DiasporaRequest"
    using assms(1) by (cases c) simp_all
  have hd: "map_of (class_data t0 (cls_of e)) ''handle'' = Some (VStr '''')"
    using cc cls by (auto simp: class_data_def)
  from typed[OF _ hd] obtain hs where hs: "get_field t0 e ''handle'' = Inr (VStr hs)" by blast
  have guid: "\<exists>g. get_field t0 e ''guid'' = Inr (VStr g)" if "c = Reaction \<or> c = DiasporaLike"
    using that cls by (intro typed) (auto simp: class_data_def)
  have "validate_attr ev t0 e f = (if v \<in> VStr ` set allowed then Inr () else Inl (InvalidField f)) \<and>
        (v \<notin> VStr ` set allowed \<longrightarrow> (\<exists>f'. validate ev t0 e = Inl (InvalidField f')))"
  proof (cases c)
    case Reaction
    with assms(1) have fa: "f = ''reaction''" "allowed = [''like'']" by simp_all
    from Reaction guid obtain g where g: "get_field t0 e ''guid'' = Inr (VStr g)" by blast
    from Reaction cls fv reaction_rule_Reaction[OF _ pl hs g, of v ev] show ?thesis
      by (simp add: fa)
  next
    case DiasporaLike
    with assms(1) have fa: "f = ''reaction''" "allowed = [''like'']" by simp_all
    from DiasporaLike guid obtain g where g: "get_field t0 e ''guid'' = Inr (VStr g)" by blast
    from DiasporaLike cls fv reaction_rule_DiasporaLike[OF _ pl hs g, of v ev] show ?thesis
      by (simp add: fa)
  next
    case Relationship
    with assms(1) have fa: "f = ''relationship''"
      "allowed = [''sharing'', ''following'', ''ignoring'', ''blocking'']" by simp_all
    from Relationship cls fv relationship_rule_Relationship[OF _ pl hs, of v ev] show ?thesis
      by (simp add: fa)
  next
    case DiasporaRequest
    with assms(1) have fa: "f = ''relationship''"
      "allowed = [''sharing'', ''following'', ''ignoring'', ''blocking'']" by simp_all
    from DiasporaRequest cls fv relationship_rule_DiasporaRequest[OF _ pl hs, of v ev] show ?thesis
      by (simp add: fa)
  qed (use assms(1) in simp_all)
  with e fv show ?thesis by blast
qed

theorem enumerated_kind_checked_at_validation_witness:
  "enum_field Reaction = Some (''reaction'', [''like'']) \<and>
   list_all (\<lambda>key. key \<in> set (schema_fields (DateTime 2016 1 1 0 0 0) Reaction))
     [''guid'', ''handle'', ''target_guid'', ''reaction''] \<and>
   construct (DateTime 2016 1 1 0 0 0) Reaction
     [(''guid'', VStr ''a0a0a0a0a0a0a0a0''), (''handle'', VStr ''alice@example.org''),
      (''target_guid'', VStr ''b1b1b1b1b1b1b1b1''), (''reaction'', VStr ''dislike'')] =
     Inr \<lparr>cls_of = Reaction,
          inst = [(''_required'',
                     VList [VStr ''handle'', VStr ''created_at'', VStr ''target_guid'',
                            VStr ''participation'', VStr ''guid'', VStr ''reaction'']),
                  (''guid'', VStr ''a0a0a0a0a0a0a0a0''), (''handle'', VStr ''alice@example.org''),
                  (''target_guid'', VStr ''b1b1b1b1b1b1b1b1''),
                  (''reaction'', VStr ''dislike'')]\<rparr> \<and>
   validate (\<lambda>h. h = ''alice@example.org'') (DateTime 2016 1 1 0 0 0)
     \<lparr>cls_of = Reaction,
      inst = [(''_required'',
                 VList [VStr ''handle'', VStr ''created_at'', VStr ''target_guid'',
                        VStr ''participation'', VStr ''guid'', VStr ''reaction'']),
              (''guid'', VStr ''a0a0a0a0a0a0a0a0''), (''handle'', VStr ''alice@example.org''),
              (''target_guid'', VStr ''b1b1b1b1b1b1b1b1''),
              (''reaction'', VStr ''dislike'')]\<rparr> = Inl (InvalidField ''reaction'')"
proof -
  let ?T = "DateTime 2016 1 1 0 0 0"
  let ?kw = "[(''guid'', VStr ''a0a0a0a0a0a0a0a0''), (''handle'', VStr ''alice@example.org''),
      (''target_guid'', VStr ''b1b1b1b1b1b1b1b1''), (''reaction'', VStr ''dislike'')]"
  let ?ev = "\<lambda>h. h = ''alice@example.org''"
  have h1: "enum_field Reaction = Some (''reaction'', [''like''])" by simp
  have h2: "fst ` set ?kw \<subseteq> set (schema_fields ?T Reaction)" by (simp add: schema_Reaction)
  have h3: "distinct (map fst ?kw)" by simp
  have h4: "(''reaction'', VStr ''dislike'') \<in> set ?kw" by simp
  have h5: "\<forall>key x. (key, x) \<in> set ?kw \<and> (key = ''guid'' \<or> key = ''handle'') \<longrightarrow> is_str x"
    by auto
  have c: "construct ?T Reaction ?kw =
     Inr \<lparr>cls_of = Reaction,
          inst = [(''_required'',
                     VList [VStr ''handle'', VStr ''created_at'', VStr ''target_guid'',
                            VStr ''participation'', VStr ''guid'', VStr ''reaction'']),
                  (''guid'', VStr ''a0a0a0a0a0a0a0a0''), (''handle'', VStr ''alice@example.org''),
                  (''target_guid'', VStr ''b1b1b1b1b1b1b1b1''),
                  (''reaction'', VStr ''dislike'')]\<rparr>"
    by (simp add: ctor_defs class_defs)
  from enumerated_kind_checked_at_validation[OF h1 h2 h3 h4 h5, of ?ev] c
  obtain f where f: "validate ?ev ?T
     \<lparr>cls_of = Reaction,
      inst = [(''_required'',
                 VList [VStr ''handle'', VStr ''created_at'', VStr ''target_guid'',
                        VStr ''participation'', VStr ''guid'', VStr ''reaction'']),
              (''guid'', VStr ''a0a0a0a0a0a0a0a0''), (''handle'', VStr ''alice@example.org''),
              (''target_guid'', VStr ''b1b1b1b1b1b1b1b1''),
              (''reaction'', VStr ''dislike'')]\<rparr> = Inl (InvalidField f)"
    by auto
  have "validate ?ev ?T
     \<lparr>cls_of = Reaction,
      inst = [(''_required'',
                 VList [VStr ''handle'', VStr ''created_at'', VStr ''target_guid'',
                        VStr ''participation'', VStr ''guid'', VStr ''reaction'']),
              (''guid'', VStr ''a0a0a0a0a0a0a0a0''), (''handle'', VStr ''alice@example.org''),
              (''target_guid'', VStr ''b1b1b1b1b1b1b1b1''),
              (''reaction'', VStr ''dislike'')]\<rparr> = Inl (InvalidField ''reaction'')"
    by (simp add: validate_def public_dir_def class_defs startswith_def validate_attr_def
        attr_access_def call_method_def validate_guid_def validate_handle_def
        validate_participation_def validate_reaction_def not_in_valid_values_def get_field_def)
  with f h1 h2 c show ?thesis by (simp add: schema_Reaction)
qed

text \<open>
  C7. The claim: serialisation never fails, and serialising a protocol entity whose required
  fields are still at their defaults yields the tree of its kind with empty-string leaves in
  place of the unset values. As stated it fails twice. For the post, \<^verbatim>\<open>created_at\<close> is
  required, its default is the timestamp of the import, and its leaf holds that timestamp
  formatted, not the empty string. For the profile, \<^verbatim>\<open>to_xml\<close> indexes
  \<^verbatim>\<open>self.image_urls\<close> by \<^verbatim>\<open>"large"\<close>, \<^verbatim>\<open>"small"\<close> and \<^verbatim>\<open>"medium"\<close>: a profile
  built with a dictionary that lacks a size, its required fields all unset, raises
  \<^verbatim>\<open>KeyError\<close>.
\<close>

theorem to_xml_counterexample:
  "next_do (construct (DateTime 2016 1 1 0 0 0) DiasporaPost []) (to_xml (DateTime 2016 1 1 0 0 0)) =
     Inr (Element ''status_message'' VNone
       [Element ''raw_message'' (VStr '''') [], Element ''guid'' (VStr '''') [],
        Element ''diaspora_handle'' (VStr '''') [], Element ''public'' (VStr ''false'') [],
        Element ''created_at'' (VStr ''2016-01-01 00:00:00 UTC'') []]) \<and>
   next_do (construct (DateTime 2016 1 1 0 0 0) DiasporaProfile [(''image_urls'', VDict [])])
     (to_xml (DateTime 2016 1 1 0 0 0)) = Inl (KeyError ''large'')"
  by (simp add: ctor_defs class_defs next_do_def to_xml_def DiasporaPost_to_xml_def
      DiasporaProfile_to_xml_def true_false_def digit_def pad2_def pad4_def)

text \<open>
  C7, amended. Serialisation runs no validator. It raises nothing for every protocol comment,
  like and request, whatever values its fields hold, for every protocol post whose
  \<^verbatim>\<open>created_at\<close> is a date-time, and for every protocol profile whose \<^verbatim>\<open>image_urls\<close>
  is a dictionary holding the three sizes and whose \<^verbatim>\<open>tag_list\<close> iterates over strings:
  it yields the fixed element tree of the kind, each leaf holding the field's value as it is
  (a flag as \<^verbatim>\<open>true\<close> or \<^verbatim>\<open>false\<close>, the timestamp of a post formatted, the tags of a
  profile each after a \<^verbatim>\<open>#\<close> and joined by spaces), so a field still at its string
  default gives an empty-string leaf. A profile built with no field gives the full profile
  tree with empty-string leaves and \<^verbatim>\<open>false\<close> for its two flags.
\<close>

theorem to_xml_without_validation:
  "(cls_of e = DiasporaComment \<longrightarrow>
      (\<exists>guid target_guid author_signature raw_content handle.
         get_field t0 e ''guid'' = Inr guid \<and> get_field t0 e ''target_guid'' = Inr target_guid \<and>
         get_field t0 e ''author_signature'' = Inr author_signature \<and>
         get_field t0 e ''raw_content'' = Inr raw_content \<and> get_field t0 e ''handle'' = Inr handle \<and>
         to_xml t0 e =
           Inr (Element ''comment'' VNone
             [Element ''guid'' guid [], Element ''parent_guid'' target_guid [],
              Element ''author_signature'' author_signature [], Element ''text'' raw_content [],
              Element ''diaspora_handle'' handle []]))) \<and>
   (cls_of e = DiasporaLike \<longrightarrow>
      (\<exists>guid target_guid author_signature handle.
         get_field t0 e ''guid'' = Inr guid \<and> get_field t0 e ''target_guid'' = Inr target_guid \<and>
         get_field t0 e ''author_signature'' = Inr author_signature \<and>
         get_field t0 e ''handle'' = Inr handle \<and>
         to_xml t0 e =
           Inr (Element ''like'' VNone
             [Element ''target_type'' (VStr ''Post'') [], Element ''guid'' guid [],
              Element ''parent_guid'' target_guid [],
              Element ''author_signature'' author_signature [],
              Element ''positive'' (VStr ''true'') [], Element ''diaspora_handle'' handle []]))) \<and>
   (cls_of e = DiasporaRequest \<longrightarrow>
      (\<exists>handle target_handle.
         get_field t0 e ''handle'' = Inr handle \<and>
         get_field t0 e ''target_handle'' = Inr target_handle \<and>
         to_xml t0 e =
           Inr (Element ''request'' VNone
             [Element ''sender_handle'' handle [],
              Element ''recipient_handle'' target_handle []]))) \<and>
   (cls_of e = DiasporaPost \<and> get_field t0 e ''created_at'' = Inr (VDateTime d) \<longrightarrow>
      (\<exists>raw_content guid handle public created.
         get_field t0 e ''raw_content'' = Inr raw_content \<and> get_field t0 e ''guid'' = Inr guid \<and>
         get_field t0 e ''handle'' = Inr handle \<and> get_field t0 e ''public'' = Inr public \<and>
         format_dt (VDateTime d) = Inr created \<and>
         to_xml t0 e =
           Inr (Element ''status_message'' VNone
             [Element ''raw_message'' raw_content [], Element ''guid'' guid [],
              Element ''diaspora_handle'' handle [],
              Element ''public'' (VStr (if truthy public then ''true'' else ''false'')) [],
              Element ''created_at'' created []]))) \<and>
   next_do (construct t0 DiasporaProfile []) (to_xml t0) =
     Inr (Element ''profile'' VNone
       [Element ''diaspora_handle'' (VStr '''') [], Element ''first_name'' (VStr '''') [],
        Element ''last_name'' (VStr '''') [], Element ''image_url'' (VStr '''') [],
        Element ''image_url_small'' (VStr '''') [], Element ''image_url_medium'' (VStr '''') [],
        Element ''gender'' (VStr '''') [], Element ''bio'' (VStr '''') [],
        Element ''location'' (VStr '''') [], Element ''searchable'' (VStr ''false'') [],
        Element ''nsfw'' (VStr ''false'') [], Element ''tag_string'' (VStr '''') []]) \<and>
   (cls_of e = DiasporaProfile \<and> get_field t0 e ''image_urls'' = Inr (VDict urls) \<and>
      map_of urls ''large'' = Some large \<and> map_of urls ''small'' = Some small \<and>
      map_of urls ''medium'' = Some medium \<and>
      get_field t0 e ''tag_list'' = Inr tag_list \<and> py_iter tag_list = Inr (map VStr ts) \<longrightarrow>
      (\<exists>handle name gender raw_content location public nsfw.
         get_field t0 e ''handle'' = Inr handle \<and> get_field t0 e ''name'' = Inr name \<and>
         get_field t0 e ''gender'' = Inr gender \<and>
         get_field t0 e ''raw_content'' = Inr raw_content \<and>
         get_field t0 e ''location'' = Inr location \<and>
         get_field t0 e ''public'' = Inr public \<and> get_field t0 e ''nsfw'' = Inr nsfw \<and>
         to_xml t0 e =
           Inr (Element ''profile'' VNone
             [Element ''diaspora_handle'' handle [], Element ''first_name'' name [],
              Element ''last_name'' (VStr '''') [], Element ''image_url'' large [],
              Element ''image_url_small'' small [], Element ''image_url_medium'' medium [],
              Element ''gender'' gender [], Element ''bio'' raw_content [],
              Element ''location'' location [],
              Element ''searchable'' (VStr (if truthy public then ''true'' else ''false'')) [],
              Element ''nsfw'' (VStr (if truthy nsfw then ''true'' else ''false'')) [],
              Element ''tag_string'' (VStr (join '' '' (map ((@) ''#'') ts))) []])))"
proof (intro conjI impI)
  assume c: "cls_of e = DiasporaComment"
  have "list_all (\<lambda>name. \<exists>v. get_field t0 e name = Inr v)
          [''guid'', ''target_guid'', ''author_signature'', ''raw_content'', ''handle'']"
    by (rule leaf_reads) (simp add: c class_data_def)
  then show "\<exists>guid target_guid author_signature raw_content handle.
         get_field t0 e ''guid'' = Inr guid \<and> get_field t0 e ''target_guid'' = Inr target_guid \<and>
         get_field t0 e ''author_signature'' = Inr author_signature \<and>
         get_field t0 e ''raw_content'' = Inr raw_content \<and> get_field t0 e ''handle'' = Inr handle \<and>
         to_xml t0 e =
           Inr (Element ''comment'' VNone
             [Element ''guid'' guid [], Element ''parent_guid'' target_guid [],
              Element ''author_signature'' author_signature [], Element ''text'' raw_content [],
              Element ''diaspora_handle'' handle []])"
    by (auto simp: to_xml_def c DiasporaComment_to_xml_def next_do_def)
next
  assume c: "cls_of e = DiasporaLike"
  have "list_all (\<lambda>name. \<exists>v. get_field t0 e name = Inr v)
          [''guid'', ''target_guid'', ''author_signature'', ''handle'']"
    by (rule leaf_reads) (simp add: c class_data_def)
  then show "\<exists>guid target_guid author_signature handle.
         get_field t0 e ''guid'' = Inr guid \<and> get_field t0 e ''target_guid'' = Inr target_guid \<and>
         get_field t0 e ''author_signature'' = Inr author_signature \<and>
         get_field t0 e ''handle'' = Inr handle \<and>
         to_xml t0 e =
           Inr (Element ''like'' VNone
             [Element ''target_type'' (VStr ''Post'') [], Element ''guid'' guid [],
              Element ''parent_guid'' target_guid [],
              Element ''author_signature'' author_signature [],
              Element ''positive'' (VStr ''true'') [], Element ''diaspora_handle'' handle []])"
    by (auto simp: to_xml_def c DiasporaLike_to_xml_def next_do_def)
next
  assume c: "cls_of e = DiasporaRequest"
  have "list_all (\<lambda>name. \<exists>v. get_field t0 e name = Inr v) [''handle'', ''target_handle'']"
    by (rule leaf_reads) (simp add: c class_data_def)
  then show "\<exists>handle target_handle.
         get_field t0 e ''handle'' = Inr handle \<and>
         get_field t0 e ''target_handle'' = Inr target_handle \<and>
         to_xml t0 e =
           Inr (Element ''request'' VNone
             [Element ''sender_handle'' handle [],
              Element ''recipient_handle'' target_handle []])"
    by (auto simp: to_xml_def c DiasporaRequest_to_xml_def next_do_def)
next
  assume a: "cls_of e = DiasporaPost \<and> get_field t0 e ''created_at'' = Inr (VDateTime d)"
  then have c: "cls_of e = DiasporaPost" and t: "get_field t0 e ''created_at'' = Inr (VDateTime d)"
    by simp_all
  have "list_all (\<lambda>name. \<exists>v. get_field t0 e name = Inr v)
          [''raw_content'', ''guid'', ''handle'', ''public'']"
    by (rule leaf_reads) (simp add: c class_data_def)
  then show "\<exists>raw_content guid handle public created.
         get_field t0 e ''raw_content'' = Inr raw_content \<and> get_field t0 e ''guid'' = Inr guid \<and>
         get_field t0 e ''handle'' = Inr handle \<and> get_field t0 e ''public'' = Inr public \<and>
         format_dt (VDateTime d) = Inr created \<and>
         to_xml t0 e =
           Inr (Element ''status_message'' VNone
             [Element ''raw_message'' raw_content [], Element ''guid'' guid [],
              Element ''diaspora_handle'' handle [],
              Element ''public'' (VStr (if truthy public then ''true'' else ''false'')) [],
              Element ''created_at'' created []])"
    by (auto simp: to_xml_def c t DiasporaPost_to_xml_def next_do_def true_false_def)
next
  show "next_do (construct t0 DiasporaProfile []) (to_xml t0) =
     Inr (Element ''profile'' VNone
       [Element ''diaspora_handle'' (VStr '''') [], Element ''first_name'' (VStr '''') [],
        Element ''last_name'' (VStr '''') [], Element ''image_url'' (VStr '''') [],
        Element ''image_url_small'' (VStr '''') [], Element ''image_url_medium'' (VStr '''') [],
        Element ''gender'' (VStr '''') [], Element ''bio'' (VStr '''') [],
        Element ''location'' (VStr '''') [], Element ''searchable'' (VStr ''false'') [],
        Element ''nsfw'' (VStr ''false'') [], Element ''tag_string'' (VStr '''') []])"
    by (simp add: ctor_defs class_defs next_do_def to_xml_def DiasporaProfile_to_xml_def
        true_false_def tag_string_def)
next
  assume a: "cls_of e = DiasporaProfile \<and> get_field t0 e ''image_urls'' = Inr (VDict urls) \<and>
      map_of urls ''large'' = Some large \<and> map_of urls ''small'' = Some small \<and>
      map_of urls ''medium'' = Some medium \<and>
      get_field t0 e ''tag_list'' = Inr tag_list \<and> py_iter tag_list = Inr (map VStr ts)"
  then have c: "cls_of e = DiasporaProfile"
    and u: "get_field t0 e ''image_urls'' = Inr (VDict urls)"
    and l: "map_of urls ''large'' = Some large" and s: "map_of urls ''small'' = Some small"
    and m: "map_of urls ''medium'' = Some medium"
    and tl: "get_field t0 e ''tag_list'' = Inr tag_list"
    and it: "py_iter tag_list = Inr (map VStr ts)"
    by simp_all
  have ts: "tag_string tag_list = Inr (VStr (join '' '' (map ((@) ''#'') ts)))"
    by (simp add: tag_string_def it hash_tags_strings)
  have "list_all (\<lambda>name. \<exists>v. get_field t0 e name = Inr v)
          [''handle'', ''name'', ''gender'', ''raw_content'', ''location'', ''public'', ''nsfw'']"
    by (rule leaf_reads) (simp add: c class_data_def)
  then obtain handle name gender raw_content location public nsfw where
    g: "get_field t0 e ''handle'' = Inr handle" "get_field t0 e ''name'' = Inr name"
       "get_field t0 e ''gender'' = Inr gender" "get_field t0 e ''raw_content'' = Inr raw_content"
       "get_field t0 e ''location'' = Inr location" "get_field t0 e ''public'' = Inr public"
       "get_field t0 e ''nsfw'' = Inr nsfw"
    by auto
  have "to_xml t0 e =
           Inr (Element ''profile'' VNone
             [Element ''diaspora_handle'' handle [], Element ''first_name'' name [],
              Element ''last_name'' (VStr '''') [], Element ''image_url'' large [],
              Element ''image_url_small'' small [], Element ''image_url_medium'' medium [],
              Element ''gender'' gender [], Element ''bio'' raw_content [],
              Element ''location'' location [],
              Element ''searchable'' (VStr (if truthy public then ''true'' else ''false'')) [],
              Element ''nsfw'' (VStr (if truthy nsfw then ''true'' else ''false'')) [],
              Element ''tag_string'' (VStr (join '' '' (map ((@) ''#'') ts))) []])"
    by (simp add: to_xml_def c DiasporaProfile_to_xml_def next_do_def g u l s m tl ts
        true_false_def)
  with g show "\<exists>handle name gender raw_content location public nsfw.
         get_field t0 e ''handle'' = Inr handle \<and> get_field t0 e ''name'' = Inr name \<and>
         get_field t0 e ''gender'' = Inr gender \<and>
         get_field t0 e ''raw_content'' = Inr raw_content \<and>
         get_field t0 e ''location'' = Inr location \<and>
         get_field t0 e ''public'' = Inr public \<and> get_field t0 e ''nsfw'' = Inr nsfw \<and>
         to_xml t0 e =
           Inr (Element ''profile'' VNone
             [Element ''diaspora_handle'' handle [], Element ''first_name'' name [],
              Element ''last_name'' (VStr '''') [], Element ''image_url'' large [],
              Element ''image_url_small'' small [], Element ''image_url_medium'' medium [],
              Element ''gender'' gender [], Element ''bio'' raw_content [],
              Element ''location'' location [],
              Element ''searchable'' (VStr (if truthy public then ''true'' else ''false'')) [],
              Element ''nsfw'' (VStr (if truthy nsfw then ''true'' else ''false'')) [],
              Element ''tag_string'' (VStr (join '' '' (map ((@) ''#'') ts))) []])"
    by blast
qed

theorem to_xml_without_validation_witness:
  "cls_of \<lparr>cls_of = DiasporaComment, inst = [(''guid'', VStr ''short'')]\<rparr> = DiasporaComment \<and>
   validate_guid (DateTime 2016 1 1 0 0 0)
     \<lparr>cls_of = DiasporaComment, inst = [(''guid'', VStr ''short'')]\<rparr> =
     Inl (InvalidField ''guid'') \<and>
   to_xml (DateTime 2016 1 1 0 0 0)
     \<lparr>cls_of = DiasporaComment, inst = [(''guid'', VStr ''short'')]\<rparr> =
     Inr (Element ''comment'' VNone
       [Element ''guid'' (VStr ''short'') [], Element ''parent_guid'' (VStr '''') [],
        Element ''author_signature'' (VStr '''') [], Element ''text'' (VStr '''') [],
        Element ''diaspora_handle'' (VStr '''') []]) \<and>
   construct (DateTime 2016 1 1 0 0 0) DiasporaProfile
     [(''name'', VStr ''Bob''), (''tag_list'', VList [VStr ''a'', VStr ''b''])] =
     Inr \<lparr>cls_of = DiasporaProfile,
          inst = [(''_required'', VList [VStr ''raw_content'', VStr ''handle'', VStr ''created_at'']),
                  (''name'', VStr ''Bob''), (''tag_list'', VList [VStr ''a'', VStr ''b''])]\<rparr> \<and>
   to_xml (DateTime 2016 1 1 0 0 0)
     \<lparr>cls_of = DiasporaProfile,
      inst = [(''_required'', VList [VStr ''raw_content'', VStr ''handle'', VStr ''created_at'']),
              (''name'', VStr ''Bob''), (''tag_list'', VList [VStr ''a'', VStr ''b''])]\<rparr> =
     Inr (Element ''profile'' VNone
       [Element ''diaspora_handle'' (VStr '''') [], Element ''first_name'' (VStr ''Bob'') [],
        Element ''last_name'' (VStr '''') [], Element ''image_url'' (VStr '''') [],
        Element ''image_url_small'' (VStr '''') [], Element ''image_url_medium'' (VStr '''') [],
        Element ''gender'' (VStr '''') [], Element ''bio'' (VStr '''') [],
        Element ''location'' (VStr '''') [], Element ''searchable'' (VStr ''false'') [],
        Element ''nsfw'' (VStr ''false'') [], Element ''tag_string'' (VStr ''#a #b'') []])"
proof -
  let ?T = "DateTime 2016 1 1 0 0 0"
  let ?x = "\<lparr>cls_of = DiasporaComment, inst = [(''guid'', VStr ''short'')]\<rparr>"
  let ?p = "\<lparr>cls_of = DiasporaProfile,
      inst = [(''_required'', VList [VStr ''raw_content'', VStr ''handle'', VStr ''created_at'']),
              (''name'', VStr ''Bob''), (''tag_list'', VList [VStr ''a'', VStr ''b''])]\<rparr>"
  let ?urls = "[(''small'', VStr ''''), (''medium'', VStr ''''), (''large'', VStr '''')]"
  have k: "construct ?T DiasporaProfile
     [(''name'', VStr ''Bob''), (''tag_list'', VList [VStr ''a'', VStr ''b''])] = Inr ?p"
    by (simp add: ctor_defs class_defs)
  have v: "validate_guid ?T ?x = Inl (InvalidField ''guid'')"
    by (simp add: get_field_def class_defs validate_guid_def)
  have x: "to_xml ?T ?x =
     Inr (Element ''comment'' VNone
       [Element ''guid'' (VStr ''short'') [], Element ''parent_guid'' (VStr '''') [],
        Element ''author_signature'' (VStr '''') [], Element ''text'' (VStr '''') [],
        Element ''diaspora_handle'' (VStr '''') []])"
    using to_xml_without_validation [of ?x ?T]
    by (auto simp: get_field_def class_defs)
  have h: "cls_of ?p = DiasporaProfile \<and> get_field ?T ?p ''image_urls'' = Inr (VDict ?urls) \<and>
    map_of ?urls ''large'' = Some (VStr '''') \<and> map_of ?urls ''small'' = Some (VStr '''') \<and>
    map_of ?urls ''medium'' = Some (VStr '''') \<and>
    get_field ?T ?p ''tag_list'' = Inr (VList [VStr ''a'', VStr ''b'']) \<and>
    py_iter (VList [VStr ''a'', VStr ''b'']) = Inr (map VStr [''a'', ''b''])"
    by (simp add: get_field_def class_defs)
  have p: "to_xml ?T ?p =
     Inr (Element ''profile'' VNone
       [Element ''diaspora_handle'' (VStr '''') [], Element ''first_name'' (VStr ''Bob'') [],
        Element ''last_name'' (VStr '''') [], Element ''image_url'' (VStr '''') [],
        Element ''image_url_small'' (VStr '''') [], Element ''image_url_medium'' (VStr '''') [],
        Element ''gender'' (VStr '''') [], Element ''bio'' (VStr '''') [],
        Element ''location'' (VStr '''') [], Element ''searchable'' (VStr ''false'') [],
        Element ''nsfw'' (VStr ''false'') [], Element ''tag_string'' (VStr ''#a #b'') []])"
    using to_xml_without_validation
      [of ?p ?T _ ?urls "VStr ''''" "VStr ''''" "VStr ''''" "VList [VStr ''a'', VStr ''b'']"
          "[''a'', ''b'']"] h
    by (auto simp: get_field_def class_defs)
  from k v x p show ?thesis by simp
qed

end
